theory Spec2Isabelle
  imports Main "HOL-Library.Multiset"
begin

section \<open>Derivations of the normalizer: stat sum, rarity, generation\<close>

text \<open>
  The service module (\<^verbatim>\<open>services/api\<close>) turns a raw detail record of the remote
  API into a card. JavaScript numbers are modelled as \<^typ>\<open>int\<close>: the remote API
  delivers integers, and every value the functions below compute stays far inside the
  range in which a double is exact. A nested object with one field
  (\<^verbatim>\<open>stat: { name }\<close>) is flattened into a field of the enclosing record
  (\<open>stat_name\<close>).
\<close>

record PokeApiStat =
  base_stat :: int
  stat_name :: string

record GenerationRange =
  range_id :: string
  displayName :: string
  setCode :: string
  maxDex :: int

definition MAX_SAFE_INTEGER :: int where
  "MAX_SAFE_INTEGER = 9007199254740991"

definition GENERATION_RANGES :: "GenerationRange list" where
  "GENERATION_RANGES =
    [\<lparr>range_id = ''generation-i'', displayName = ''Generation I'', setCode = ''GEN1'', maxDex = 151\<rparr>,
     \<lparr>range_id = ''generation-ii'', displayName = ''Generation II'', setCode = ''GEN2'', maxDex = 251\<rparr>,
     \<lparr>range_id = ''generation-iii'', displayName = ''Generation III'', setCode = ''GEN3'', maxDex = 386\<rparr>,
     \<lparr>range_id = ''generation-iv'', displayName = ''Generation IV'', setCode = ''GEN4'', maxDex = 493\<rparr>,
     \<lparr>range_id = ''generation-v'', displayName = ''Generation V'', setCode = ''GEN5'', maxDex = 649\<rparr>,
     \<lparr>range_id = ''generation-vi'', displayName = ''Generation VI'', setCode = ''GEN6'', maxDex = 721\<rparr>,
     \<lparr>range_id = ''generation-vii'', displayName = ''Generation VII'', setCode = ''GEN7'', maxDex = 809\<rparr>,
     \<lparr>range_id = ''generation-viii'', displayName = ''Generation VIII'', setCode = ''GEN8'', maxDex = 905\<rparr>,
     \<lparr>range_id = ''generation-ix'', displayName = ''Generation IX'', setCode = ''GEN9'',
      maxDex = MAX_SAFE_INTEGER\<rparr>]"

text \<open>\<^verbatim>\<open>stats.reduce((total, stat) => total + stat.base_stat, 0)\<close>\<close>

definition sumStats :: "PokeApiStat list \<Rightarrow> int" where
  "sumStats stats = foldl (\<lambda>total stat. total + base_stat stat) 0 stats"

text \<open>
  \<^verbatim>\<open>GENERATION_RANGES.find((range) => dexId <= range.maxDex) ?? GENERATION_RANGES[length - 1]\<close>
\<close>

definition getGenerationByDexId :: "int \<Rightarrow> GenerationRange" where
  "getGenerationByDexId dexId =
    (case find (\<lambda>r. dexId \<le> maxDex r) GENERATION_RANGES of
       Some r \<Rightarrow> r
     | None \<Rightarrow> GENERATION_RANGES ! (length GENERATION_RANGES - 1))"

definition getRarityFromStats :: "PokeApiStat list \<Rightarrow> string" where
  "getRarityFromStats stats =
    (let total = sumStats stats in
     if total \<ge> 600 then ''Legendary''
     else if total \<ge> 520 then ''Epic''
     else if total \<ge> 450 then ''Rare''
     else if total \<ge> 380 then ''Uncommon''
     else ''Common'')"

section \<open>Properties of the derivations\<close>

lemma foldl_add_base_stat:
  "foldl (\<lambda>total stat. total + base_stat stat) a stats = a + sum_list (map base_stat stats)"
  by (induction stats arbitrary: a) simp_all

lemma sumStats_sum_list: "sumStats stats = sum_list (map base_stat stats)"
  by (simp add: sumStats_def foldl_add_base_stat)

text \<open>
  Claim C7. The rarity of a stat list depends on the list only through the sum of its
  base stats, and the sum is mapped through the descending thresholds 600 (Legendary),
  520 (Epic), 450 (Rare), 380 (Uncommon), anything lower being Common. The boundaries are
  exact: the sums 600, 599, 520, 519, 450, 449, 380 and 379 give Legendary, Epic, Epic,
  Rare, Rare, Uncommon, Uncommon and Common.
\<close>

theorem getRarityFromStats_thresholds:
  "sumStats stats = sum_list (map base_stat stats)
   \<and> (600 \<le> sumStats stats \<longrightarrow> getRarityFromStats stats = ''Legendary'')
   \<and> (520 \<le> sumStats stats \<and> sumStats stats < 600 \<longrightarrow> getRarityFromStats stats = ''Epic'')
   \<and> (450 \<le> sumStats stats \<and> sumStats stats < 520 \<longrightarrow> getRarityFromStats stats = ''Rare'')
   \<and> (380 \<le> sumStats stats \<and> sumStats stats < 450 \<longrightarrow> getRarityFromStats stats = ''Uncommon'')
   \<and> (sumStats stats < 380 \<longrightarrow> getRarityFromStats stats = ''Common'')
   \<and> (sumStats stats = 600 \<longrightarrow> getRarityFromStats stats = ''Legendary'')
   \<and> (sumStats stats = 599 \<longrightarrow> getRarityFromStats stats = ''Epic'')
   \<and> (sumStats stats = 520 \<longrightarrow> getRarityFromStats stats = ''Epic'')
   \<and> (sumStats stats = 519 \<longrightarrow> getRarityFromStats stats = ''Rare'')
   \<and> (sumStats stats = 450 \<longrightarrow> getRarityFromStats stats = ''Rare'')
   \<and> (sumStats stats = 449 \<longrightarrow> getRarityFromStats stats = ''Uncommon'')
   \<and> (sumStats stats = 380 \<longrightarrow> getRarityFromStats stats = ''Uncommon'')
   \<and> (sumStats stats = 379 \<longrightarrow> getRarityFromStats stats = ''Common'')"
  by (simp add: getRarityFromStats_def sumStats_sum_list Let_def)

text \<open>
  The theorem at work on eight stat lists of six stats each (hp, attack, defense,
  special-attack, special-defense, speed) whose sums are the eight boundary values.
\<close>

definition sixStats :: "int \<Rightarrow> PokeApiStat list" where
  "sixStats speed =
    [\<lparr>base_stat = 100, stat_name = ''hp''\<rparr>, \<lparr>base_stat = 100, stat_name = ''attack''\<rparr>,
     \<lparr>base_stat = 100, stat_name = ''defense''\<rparr>, \<lparr>base_stat = 50, stat_name = ''special-attack''\<rparr>,
     \<lparr>base_stat = 29, stat_name = ''special-defense''\<rparr>, \<lparr>base_stat = speed, stat_name = ''speed''\<rparr>]"

lemma sumStats_sixStats: "sumStats (sixStats speed) = 379 + speed"
  by (simp add: sumStats_def sixStats_def)

theorem getRarityFromStats_thresholds_witness:
  "map (\<lambda>speed. sumStats (sixStats speed)) [221, 220, 141, 140, 71, 70, 1, 0]
     = [600, 599, 520, 519, 450, 449, 380, 379]
   \<and> map (\<lambda>speed. getRarityFromStats (sixStats speed)) [221, 220, 141, 140, 71, 70, 1, 0]
     = [''Legendary'', ''Epic'', ''Epic'', ''Rare'', ''Rare'', ''Uncommon'', ''Uncommon'', ''Common'']"
  using getRarityFromStats_thresholds [of "sixStats 221"]
    getRarityFromStats_thresholds [of "sixStats 220"]
    getRarityFromStats_thresholds [of "sixStats 141"]
    getRarityFromStats_thresholds [of "sixStats 140"]
    getRarityFromStats_thresholds [of "sixStats 71"]
    getRarityFromStats_thresholds [of "sixStats 70"]
    getRarityFromStats_thresholds [of "sixStats 1"]
    getRarityFromStats_thresholds [of "sixStats 0"]
  unfolding sumStats_sixStats by simp

text \<open>
  The index of the table entry that an identifier falls into, written out by the
  bounds of the table; a proof device, tied to the function by
  \<open>getGenerationByDexId_index\<close>.
\<close>

definition generationIndex :: "int \<Rightarrow> nat" where
  "generationIndex dexId =
    (if dexId \<le> 151 then 0 else if dexId \<le> 251 then 1 else if dexId \<le> 386 then 2
     else if dexId \<le> 493 then 3 else if dexId \<le> 649 then 4 else if dexId \<le> 721 then 5
     else if dexId \<le> 809 then 6 else if dexId \<le> 905 then 7 else 8)"

lemma GENERATION_RANGES_length: "length GENERATION_RANGES = 9"
  by (simp add: GENERATION_RANGES_def)

lemma getGenerationByDexId_index:
  "getGenerationByDexId dexId = GENERATION_RANGES ! generationIndex dexId"
  by (simp add: getGenerationByDexId_def generationIndex_def GENERATION_RANGES_def
      MAX_SAFE_INTEGER_def)

lemma generationIndex_first:
  "\<forall>j < generationIndex dexId. maxDex (GENERATION_RANGES ! j) < dexId"
  by (auto simp: generationIndex_def GENERATION_RANGES_def less_Suc_eq numeral_nat
      split: if_splits)

lemma generationIndex_bound:
  "dexId \<le> maxDex (GENERATION_RANGES ! generationIndex dexId)
   \<or> generationIndex dexId = length GENERATION_RANGES - 1"
  by (simp add: generationIndex_def GENERATION_RANGES_def)

text \<open>
  Claim C8. The table of generation ranges is strictly ascending in its bound. For
  every identifier the generation assigned is one entry of the table, the first whose
  bound is at least the identifier: every earlier entry has a smaller bound, and the
  entry itself has a bound that reaches the identifier or is the last entry, which
  takes whatever is left (it is unbounded: every identifier above 905 gets Generation
  IX). The boundaries of the nine ranges are exact: 151 is Generation I, 152 is
  Generation II, and so on up to 905 (Generation VIII) and 906 (Generation IX).
\<close>

theorem getGenerationByDexId_first_range:
  "sorted_wrt (<) (map maxDex GENERATION_RANGES)
   \<and> (\<exists>i < length GENERATION_RANGES.
        getGenerationByDexId dexId = GENERATION_RANGES ! i
      \<and> (\<forall>j < i. maxDex (GENERATION_RANGES ! j) < dexId)
      \<and> (dexId \<le> maxDex (GENERATION_RANGES ! i) \<or> i = length GENERATION_RANGES - 1))
   \<and> (905 < dexId \<longrightarrow> displayName (getGenerationByDexId dexId) = ''Generation IX'')
   \<and> map (\<lambda>d. displayName (getGenerationByDexId d))
        [151, 152, 251, 252, 386, 387, 493, 494, 649, 650, 721, 722, 809, 810, 905, 906]
     = [''Generation I'', ''Generation II'', ''Generation II'', ''Generation III'',
        ''Generation III'', ''Generation IV'', ''Generation IV'', ''Generation V'',
        ''Generation V'', ''Generation VI'', ''Generation VI'', ''Generation VII'',
        ''Generation VII'', ''Generation VIII'', ''Generation VIII'', ''Generation IX'']"
proof -
  let ?i = "generationIndex dexId"
  have ascending: "sorted_wrt (<) (map maxDex GENERATION_RANGES)"
    by (simp add: GENERATION_RANGES_def MAX_SAFE_INTEGER_def)
  have "?i < length GENERATION_RANGES"
    by (simp add: GENERATION_RANGES_length generationIndex_def)
  with getGenerationByDexId_index generationIndex_first generationIndex_bound
  have first: "\<exists>i < length GENERATION_RANGES.
        getGenerationByDexId dexId = GENERATION_RANGES ! i
      \<and> (\<forall>j < i. maxDex (GENERATION_RANGES ! j) < dexId)
      \<and> (dexId \<le> maxDex (GENERATION_RANGES ! i) \<or> i = length GENERATION_RANGES - 1)"
    by blast
  have last: "905 < dexId \<longrightarrow> displayName (getGenerationByDexId dexId) = ''Generation IX''"
    by (simp add: getGenerationByDexId_index generationIndex_def GENERATION_RANGES_def)
  have bounds: "map (\<lambda>d. displayName (getGenerationByDexId d))
        [151, 152, 251, 252, 386, 387, 493, 494, 649, 650, 721, 722, 809, 810, 905, 906]
     = [''Generation I'', ''Generation II'', ''Generation II'', ''Generation III'',
        ''Generation III'', ''Generation IV'', ''Generation IV'', ''Generation V'',
        ''Generation V'', ''Generation VI'', ''Generation VI'', ''Generation VII'',
        ''Generation VII'', ''Generation VIII'', ''Generation VIII'', ''Generation IX'']"
    by (simp add: getGenerationByDexId_index generationIndex_def GENERATION_RANGES_def)
  from ascending first last bounds show ?thesis by blast
qed

text \<open>
  The theorem at 1025, above every finite bound: the entry found is the ninth, whose
  bound is the largest safe integer.
\<close>

theorem getGenerationByDexId_first_range_witness:
  "(905::int) < 1025 \<and> getGenerationByDexId 1025 = GENERATION_RANGES ! 8
   \<and> displayName (getGenerationByDexId 1025) = ''Generation IX''
   \<and> setCode (getGenerationByDexId 1025) = ''GEN9''"
proof -
  have "displayName (getGenerationByDexId 1025) = ''Generation IX''"
    using getGenerationByDexId_first_range [of 1025] by simp
  moreover have "getGenerationByDexId 1025 = GENERATION_RANGES ! 8"
    by (simp add: getGenerationByDexId_index generationIndex_def)
  ultimately show ?thesis by (simp add: GENERATION_RANGES_def)
qed

section \<open>Strings and numbers of the host language\<close>

text \<open>
  Strings are modelled over the ASCII alphabet, one \<^typ>\<open>char\<close> per code unit;
  the slugs and display names of the remote API are ASCII. \<open>toLowerCase\<close> maps the
  letters A to Z to a to z and leaves every other character alone.
\<close>

definition charCode :: "char \<Rightarrow> nat" where
  "charCode c = of_char c"

definition toLowerCaseChar :: "char \<Rightarrow> char" where
  "toLowerCaseChar c =
    (if 65 \<le> charCode c \<and> charCode c \<le> 90 then char_of (charCode c + 32) else c)"

definition toLowerCase :: "string \<Rightarrow> string" where
  "toLowerCase s = map toLowerCaseChar s"

text \<open>
  \<open>parseInt(s, 10)\<close>: leading white space is skipped, one sign is read, then the
  longest run of decimal digits; with no digit the result is \<open>NaN\<close>.
\<close>

definition isStrWhiteSpaceChar :: "char \<Rightarrow> bool" where
  "isStrWhiteSpaceChar c \<longleftrightarrow> charCode c \<in> set [32, 9, 10, 11, 12, 13]"

definition isDigit :: "char \<Rightarrow> bool" where
  "isDigit c \<longleftrightarrow> 48 \<le> charCode c \<and> charCode c \<le> 57"

definition digitValue :: "char \<Rightarrow> int" where
  "digitValue c = int (charCode c) - 48"

datatype number = NaN | Num int

definition parseInt :: "string \<Rightarrow> number" where
  "parseInt s =
    (let t = dropWhile isStrWhiteSpaceChar s;
         sign = (case t of c # _ \<Rightarrow> if c = CHR ''-'' then -1 else 1 | [] \<Rightarrow> 1);
         u = (case t of c # r \<Rightarrow> if c = CHR ''-'' \<or> c = CHR ''+'' then r else t | [] \<Rightarrow> t);
         z = takeWhile isDigit u
     in if z = [] then NaN else Num (sign * foldl (\<lambda>n c. 10 * n + digitValue c) 0 z))"

text \<open>
  \<open>Array.prototype.sort\<close> with a comparator is a stable sort (ECMAScript 2019): for a
  comparator that is a consistent ordering its result is the one that insertion from
  the right end computes, an element going in front of the first element it does not
  compare greater than.
\<close>

fun insertBy :: "('a \<Rightarrow> 'a \<Rightarrow> int) \<Rightarrow> 'a \<Rightarrow> 'a list \<Rightarrow> 'a list" where
  "insertBy compareFn x [] = [x]"
| "insertBy compareFn x (y # ys) =
    (if compareFn x y \<le> 0 then x # y # ys else y # insertBy compareFn x ys)"

definition arraySort :: "('a \<Rightarrow> 'a \<Rightarrow> int) \<Rightarrow> 'a list \<Rightarrow> 'a list" where
  "arraySort compareFn xs = foldr (insertBy compareFn) xs []"


text \<open>
  One collation to run examples with: the order of the code units. On the strings of
  the examples below (equal strings, and capitalised ASCII words that differ in their
  first letters) every locale's collation gives the same sign.
\<close>

fun codeUnitCompare :: "string \<Rightarrow> string \<Rightarrow> int" where
  "codeUnitCompare [] [] = 0"
| "codeUnitCompare [] (y # ys) = -1"
| "codeUnitCompare (x # xs) [] = 1"
| "codeUnitCompare (x # xs) (y # ys) =
    (if charCode x < charCode y then -1
     else if charCode y < charCode x then 1
     else codeUnitCompare xs ys)"

section \<open>The view layer: ranking and filtering of cards\<close>

text \<open>
  The view reads a card through the interface \<^verbatim>\<open>PokemonCard\<close>. The record has
  the fields that \<^verbatim>\<open>sortCards\<close> and \<^verbatim>\<open>matchesFilters\<close> read; an optional
  field of the interface is an \<^typ>\<open>'a option\<close>, and \<open>set_name\<close> and
  \<open>serie_name\<close> stand for \<^verbatim>\<open>set.name\<close> and \<^verbatim>\<open>serie.name\<close>, which the
  interface requires (the optional chaining the code applies to them never finds them
  missing on a value of the interface).
\<close>

record PokemonCard =
  name :: string
  hp :: "string option"
  rarity :: "string option"
  set_name :: string
  serie_name :: string
  types :: "string list option"
  dexId :: "int list option"

record FilterOptions =
  sets :: "string list"
  series :: "string list"
  filter_types :: "string list"
  rarities :: "string list"
  subtypes :: "string list"
  hpRange_min :: int
  hpRange_max :: int

datatype SortProperty = SortName | SortHp | SortAttack | SortDefense | SortSpecialAttack
  | SortSpecialDefense | SortSpeed | SortRarity | SortSet | SortDexId


text \<open>\<^verbatim>\<open>parseInt(card.hp || '0', 10) || 0\<close>\<close>

definition hpOf :: "PokemonCard \<Rightarrow> int" where
  "hpOf c =
    (case parseInt (case hp c of None \<Rightarrow> ''0'' | Some s \<Rightarrow> if s = [] then ''0'' else s) of
       NaN \<Rightarrow> 0
     | Num n \<Rightarrow> n)"

definition matchesFilters :: "FilterOptions \<Rightarrow> PokemonCard \<Rightarrow> bool" where
  "matchesFilters filters c =
    (let matchesSeries = (length (series filters) = 0 \<or>
           list_ex (\<lambda>s. let normalizedSeries = toLowerCase s in
                      toLowerCase (set_name c) = normalizedSeries \<or>
                      toLowerCase (serie_name c) = normalizedSeries) (series filters));
         matchesType = (length (filter_types filters) = 0 \<or>
           list_all (\<lambda>t. case types c of
                             None \<Rightarrow> False
                           | Some ts \<Rightarrow> list_ex (\<lambda>cardType. toLowerCase cardType = toLowerCase t) ts)
             (filter_types filters));
         matchesRarity = (length (rarities filters) = 0 \<or>
           list_ex (\<lambda>r. case rarity c of
                            None \<Rightarrow> False
                          | Some cr \<Rightarrow> toLowerCase cr = toLowerCase r) (rarities filters));
         hp = hpOf c;
         matchesHp = (hp \<ge> hpRange_min filters \<and> hp \<le> hpRange_max filters)
     in matchesSeries \<and> matchesType \<and> matchesRarity \<and> matchesHp)"














subsection \<open>Sorting with a comparator\<close>











subsection \<open>The comparator for the property set\<close>







subsection \<open>Example cards and filters\<close>





definition charizard :: "string list \<Rightarrow> string \<Rightarrow> PokemonCard" where
  "charizard ts s =
    \<lparr>name = ''Charizard'', hp = Some ''78'', rarity = Some ''Epic'', set_name = s, serie_name = s,
     types = Some ts, dexId = Some [6]\<rparr>"

definition onlyFilters :: "string list \<Rightarrow> string list \<Rightarrow> FilterOptions" where
  "onlyFilters ss ts =
    \<lparr>sets = [], series = ss, filter_types = ts, rarities = [], subtypes = [],
     hpRange_min = 0, hpRange_max = 1000\<rparr>"

subsection \<open>The filter criteria in the words of the specification\<close>

text \<open>
  The four conditions as the specification words them, to compare the code with: a
  card meets the criteria when (1) no series is selected or its set name or its
  series name equals a selected series, letter case ignored; (2) no type is selected
  or for every selected type it has a type that equals it, letter case ignored;
  (3) no rarity is selected or it has a rarity that equals a selected one, letter case
  ignored; (4) its hp, taken as 0 when it is absent or not a number, lies in the
  inclusive range.
\<close>

definition equalsIgnoreCase :: "string \<Rightarrow> string \<Rightarrow> bool" where
  "equalsIgnoreCase s t \<longleftrightarrow> toLowerCase s = toLowerCase t"

definition meetsCriteria :: "FilterOptions \<Rightarrow> PokemonCard \<Rightarrow> bool" where
  "meetsCriteria filters c \<longleftrightarrow>
     (series filters = [] \<or>
        (\<exists>s \<in> set (series filters). equalsIgnoreCase (set_name c) s \<or> equalsIgnoreCase (serie_name c) s))
   \<and> (filter_types filters = [] \<or>
        (\<forall>t \<in> set (filter_types filters).
           \<exists>cardType \<in> set (case types c of None \<Rightarrow> [] | Some ts \<Rightarrow> ts). equalsIgnoreCase cardType t))
   \<and> (rarities filters = [] \<or>
        (\<exists>r \<in> set (rarities filters).
           case rarity c of None \<Rightarrow> False | Some cr \<Rightarrow> equalsIgnoreCase cr r))
   \<and> (let h = (case hp c of None \<Rightarrow> 0 | Some s \<Rightarrow> (case parseInt s of NaN \<Rightarrow> 0 | Num n \<Rightarrow> n))
      in hpRange_min filters \<le> h \<and> h \<le> hpRange_max filters)"

lemma parseInt_zero: "parseInt ''0'' = Num 0"
  by code_simp

lemma parseInt_empty: "parseInt [] = NaN"
  by (simp add: parseInt_def)

lemma hpOf_default:
  "hpOf c = (case hp c of None \<Rightarrow> 0 | Some s \<Rightarrow> (case parseInt s of NaN \<Rightarrow> 0 | Num n \<Rightarrow> n))"
  by (simp add: hpOf_def parseInt_zero parseInt_empty split: option.split)

lemma types_some_iff:
  "(case types c of None \<Rightarrow> False
    | Some ts \<Rightarrow> list_ex (\<lambda>cardType. toLowerCase cardType = toLowerCase t) ts)
   \<longleftrightarrow> (\<exists>cardType \<in> set (case types c of None \<Rightarrow> [] | Some ts \<Rightarrow> ts).
          toLowerCase cardType = toLowerCase t)"
  by (auto simp: list_ex_iff split: option.split)

text \<open>
  Claim C5. A card passes \<open>matchesFilters\<close> exactly when all four conditions of
  \<open>meetsCriteria\<close> hold: the series and the rarity conditions are disjunctive
  over the selection, the type condition is conjunctive, all three ignore letter case
  and are void for an empty selection, and the hp defaults to 0 and is compared with
  both ends of the range inclusively.
\<close>

theorem matchesFilters_meetsCriteria:
  "matchesFilters filters c \<longleftrightarrow> meetsCriteria filters c"
  unfolding matchesFilters_def meetsCriteria_def equalsIgnoreCase_def Let_def
    types_some_iff hpOf_default
  by (simp add: list_ex_iff list_all_iff)

text \<open>
  The three examples of the claim: the types Fire and Flying exclude a card whose only
  type is Fire and include one with the types Fire, Flying and Dragon; the series A and
  B include a card whose series is B.
\<close>

theorem matchesFilters_meetsCriteria_witness:
  "\<not> matchesFilters (onlyFilters [] [''Fire'', ''Flying'']) (charizard [''Fire''] ''Generation I'')
   \<and> matchesFilters (onlyFilters [] [''Fire'', ''Flying''])
       (charizard [''Fire'', ''Flying'', ''Dragon''] ''Generation I'')
   \<and> matchesFilters (onlyFilters [''A'', ''B''] []) (charizard [''Fire''] ''B'')"
proof -
  have "\<not> meetsCriteria (onlyFilters [] [''Fire'', ''Flying'']) (charizard [''Fire''] ''Generation I'')"
    by code_simp
  moreover have "meetsCriteria (onlyFilters [] [''Fire'', ''Flying''])
       (charizard [''Fire'', ''Flying'', ''Dragon''] ''Generation I'')"
    by code_simp
  moreover have "meetsCriteria (onlyFilters [''A'', ''B''] []) (charizard [''Fire''] ''B'')"
    by code_simp
  ultimately show ?thesis
    unfolding matchesFilters_meetsCriteria by blast
qed




section \<open>The normalizer: values, the strip-empty pass, the card\<close>

subsection \<open>The values of a card\<close>

text \<open>
  A card is a JavaScript object; \<^verbatim>\<open>stripEmpty\<close> walks it by its keys, whatever its
  type. A value is \<^verbatim>\<open>undefined\<close>, \<^verbatim>\<open>null\<close>, a boolean, a number, a
  string, an array or an object. An array is the list of its slots, a slot being a
  value or a hole (\<open>None\<close>): \<^verbatim>\<open>delete arr[k]\<close>, which \<^verbatim>\<open>stripEmpty\<close>
  executes when it is handed an array that is itself an element of an array, leaves a
  hole and keeps the length. An object is the list of its properties in insertion
  order. No two properties of the card share a value (every array and object of it is
  built afresh), so mutation in place is modelled by returning the new value.
\<close>

datatype jv = JUndefined | JNull | JBool bool | JNum int | JStr string
  | JArr "jv option list" | JObj "(string \<times> jv) list"

text \<open>
  \<^verbatim>\<open>v == null || v === '' || (Array.isArray(v) && v.length === 0) ||
  (typeof v === 'object' && !Array.isArray(v) && Object.keys(v).length === 0)\<close>
\<close>

fun isEmptyValue :: "jv \<Rightarrow> bool" where
  "isEmptyValue JUndefined = True"
| "isEmptyValue JNull = True"
| "isEmptyValue (JStr s) = (s = [])"
| "isEmptyValue (JArr slots) = (length slots = 0)"
| "isEmptyValue (JObj props) = (length props = 0)"
| "isEmptyValue _ = False"

text \<open>\<^verbatim>\<open>item && typeof item === 'object'\<close>: an array or an object.\<close>

fun isObjectLike :: "jv \<Rightarrow> bool" where
  "isObjectLike (JArr slots) = True"
| "isObjectLike (JObj props) = True"
| "isObjectLike _ = False"

text \<open>
  \<open>stripEmpty obj\<close> visits every key of \<open>obj\<close>; \<open>stripProp v\<close> is what
  becomes of one key whose value is \<open>v\<close>: \<open>None\<close> when the key is deleted,
  the new value otherwise.
  \<^item> An array value is replaced by a new array: each element that is an array or an
    object is stripped, the other elements are kept, and then the empty elements (and
    the holes, which \<^verbatim>\<open>filter\<close> skips) are dropped. The key is deleted when
    nothing is left.
  \<^item> An object value is stripped, and the key is deleted when the object is empty
    afterwards.
  \<^item> Any other value is deleted when it is empty.

  The keys of an array are the indices of its slots that are not holes, so
  \<open>stripEmpty\<close> of an array treats each such slot like a key, and a deleted key is
  a hole.
\<close>

fun stripEmpty :: "jv \<Rightarrow> jv" and stripProp :: "jv \<Rightarrow> jv option" where
  "stripEmpty (JObj props) =
     JObj (concat (map (\<lambda>(k, v). case stripProp v of None \<Rightarrow> [] | Some v' \<Rightarrow> [(k, v')]) props))"
| "stripEmpty (JArr slots) =
     JArr (map (\<lambda>slot. case slot of None \<Rightarrow> None | Some v \<Rightarrow> stripProp v) slots)"
| "stripEmpty v = v"
| "stripProp (JArr slots) =
     (let items = filter (\<lambda>item. \<not> isEmptyValue item)
            (concat (map (\<lambda>slot. case slot of None \<Rightarrow> []
                | Some item \<Rightarrow> [if isObjectLike item then stripEmpty item else item]) slots))
      in if length items = 0 then None else Some (JArr (map Some items)))"
| "stripProp (JObj props) =
     (let v = stripEmpty (JObj props) in if isEmptyValue v then None else Some v)"
| "stripProp v = (if isEmptyValue v then None else Some v)"



subsection \<open>The strip-empty pass is idempotent\<close>

definition stripItem :: "jv \<Rightarrow> jv" where
  "stripItem item = (if isObjectLike item then stripEmpty item else item)"

lemma isObjectLike_stripEmpty [simp]: "isObjectLike (stripEmpty v) = isObjectLike v"
  by (cases v) simp_all

lemma concat_map_Some:
  "concat (map (\<lambda>slot. case slot of None \<Rightarrow> [] | Some item \<Rightarrow> [f item]) (map Some xs)) = map f xs"
  by (induction xs) simp_all

lemma set_concat_slots:
  "set (concat (map (\<lambda>slot. case slot of None \<Rightarrow> [] | Some item \<Rightarrow> [f item]) slots))
     = {f item | item. Some item \<in> set slots}"
  by (induction slots) (auto split: option.splits)

lemma stripProp_JArr:
  "stripProp (JArr slots) =
    (let items = filter (\<lambda>item. \<not> isEmptyValue item)
           (concat (map (\<lambda>slot. case slot of None \<Rightarrow> [] | Some item \<Rightarrow> [stripItem item]) slots))
     in if items = [] then None else Some (JArr (map Some items)))"
  by (simp add: stripItem_def Let_def)

lemma stripProp_not_empty: "stripProp v = Some v' \<Longrightarrow> \<not> isEmptyValue v'"
  by (cases v) (auto simp: Let_def split: if_splits)

lemma strip_idem:
  "stripEmpty (stripEmpty v) = stripEmpty v
   \<and> (\<forall>v'. stripProp v = Some v' \<longrightarrow> stripProp v' = Some v')"
proof (induction v)
  case (JArr slots)
  have ih1: "stripEmpty (stripEmpty x) = stripEmpty x" if "Some x \<in> set slots" for x
    using JArr that by force
  have ih2: "stripProp x' = Some x'" if "Some x \<in> set slots" "stripProp x = Some x'" for x x'
    using JArr that by force
  have a: "stripEmpty (stripEmpty (JArr slots)) = stripEmpty (JArr slots)"
    by (auto simp: ih2 split: option.splits)
  have b: "stripProp v' = Some v'" if v': "stripProp (JArr slots) = Some v'" for v'
  proof -
    define items where "items = filter (\<lambda>item. \<not> isEmptyValue item)
           (concat (map (\<lambda>slot. case slot of None \<Rightarrow> [] | Some item \<Rightarrow> [stripItem item]) slots))"
    from v' have ne: "items \<noteq> []" and eq: "v' = JArr (map Some items)"
      unfolding stripProp_JArr items_def Let_def by (auto split: if_splits)
    have fixd: "stripItem y = y" if "y \<in> set items" for y
    proof -
      from that obtain x where x: "Some x \<in> set slots" "y = stripItem x"
        unfolding items_def by (auto simp: set_concat_slots)
      show ?thesis
        unfolding x(2) stripItem_def using ih1 [OF x(1)] by simp
    qed
    have nonempty: "\<not> isEmptyValue y" if "y \<in> set items" for y
      using that unfolding items_def by simp
    have "map stripItem items = items"
      using fixd by (simp add: map_idI)
    moreover have "filter (\<lambda>item. \<not> isEmptyValue item) items = items"
      using nonempty by (simp add: filter_id_conv)
    ultimately show ?thesis
      unfolding eq stripProp_JArr concat_map_Some Let_def using ne by simp
  qed
  from a b show ?case by blast
next
  case (JObj props)
  have ih2: "stripProp x' = Some x'" if "(k, x) \<in> set props" "stripProp x = Some x'" for k x x'
    using JObj that by force
  have a: "stripEmpty (stripEmpty (JObj props)) = stripEmpty (JObj props)"
    using ih2
  proof (induction props)
    case Nil
    then show ?case by simp
  next
    case (Cons p props)
    obtain k x where p: "p = (k, x)" by (cases p)
    from Cons.prems have rest: "stripEmpty (stripEmpty (JObj props)) = stripEmpty (JObj props)"
      by (intro Cons.IH) auto
    from Cons.prems p have here: "stripProp x' = Some x'" if "stripProp x = Some x'" for x'
      using that by auto
    from rest here show ?case
      by (auto simp: p split: option.splits)
  qed
  have b: "stripProp v' = Some v'" if v': "stripProp (JObj props) = Some v'" for v'
  proof -
    from v' have v'_def: "v' = stripEmpty (JObj props)" and ne: "\<not> isEmptyValue v'"
      by (auto simp: Let_def split: if_splits)
    obtain ps where ps: "stripEmpty (JObj props) = JObj ps"
      by simp
    from a have "stripEmpty (JObj ps) = JObj ps"
      unfolding ps .
    with ne show ?thesis
      unfolding v'_def ps by (simp add: Let_def del: stripEmpty.simps(1))
  qed
  from a b show ?case by blast
qed simp_all

subsection \<open>Title case, numbers as text\<close>

text \<open>
  \<^verbatim>\<open>value.split(/[-_\s]+/).filter(Boolean).map((part) => part.charAt(0).toUpperCase()
  + part.slice(1)).join(' ')\<close>. \<open>splitSlug\<close> is the split at every run of
  separators; like the regular expression it yields an empty first or last part when
  the slug starts or ends with a separator, and the one empty part for the empty slug.
\<close>

definition toUpperCaseChar :: "char \<Rightarrow> char" where
  "toUpperCaseChar c =
    (if 97 \<le> charCode c \<and> charCode c \<le> 122 then char_of (charCode c - 32) else c)"

definition isSlugSeparator :: "char \<Rightarrow> bool" where
  "isSlugSeparator c \<longleftrightarrow> c = CHR ''-'' \<or> c = CHR ''_'' \<or> isStrWhiteSpaceChar c"

function splitSlug :: "string \<Rightarrow> string list" where
  "splitSlug s =
    (let part = takeWhile (\<lambda>c. \<not> isSlugSeparator c) s;
         rest = dropWhile (\<lambda>c. \<not> isSlugSeparator c) s
     in if rest = [] then [part] else part # splitSlug (dropWhile isSlugSeparator rest))"
  by pat_completeness auto
termination
proof (relation "measure length")
  show "wf (measure length)" by simp
next
  fix s part rest :: string
  assume rest: "rest = dropWhile (\<lambda>c. \<not> isSlugSeparator c) s" and ne: "rest \<noteq> []"
  from ne obtain c cs where r: "rest = c # cs" by (cases rest) auto
  have "length (dropWhile isSlugSeparator rest) \<le> length cs"
  proof -
    from rest r have "dropWhile (\<lambda>c. \<not> isSlugSeparator c) s = c # cs" by simp
    then have "isSlugSeparator c"
      unfolding dropWhile_eq_Cons_conv by simp
    then show ?thesis
      unfolding r using length_dropWhile_le [of isSlugSeparator cs] by simp
  qed
  moreover have "length rest \<le> length s"
    unfolding rest by (rule length_dropWhile_le)
  ultimately show "(dropWhile isSlugSeparator rest, s) \<in> measure length"
    unfolding r by simp
qed

declare splitSlug.simps [simp del]

definition capitalize :: "string \<Rightarrow> string" where
  "capitalize part = (case part of [] \<Rightarrow> [] | c # cs \<Rightarrow> toUpperCaseChar c # cs)"

fun join :: "string \<Rightarrow> string list \<Rightarrow> string" where
  "join sep [] = []"
| "join sep [x] = x"
| "join sep (x # y # ys) = x @ sep @ join sep (y # ys)"

definition toTitleCase :: "string \<Rightarrow> string" where
  "toTitleCase v = join '' '' (map capitalize (filter (\<lambda>part. part \<noteq> []) (splitSlug v)))"



text \<open>
  \<open>String(n)\<close> for an integer, and \<open>(n / 10).toFixed(1)\<close> for an integer
  \<open>n\<close>: one decimal, the last digit of \<open>n\<close>.
\<close>

fun natToString :: "nat \<Rightarrow> string" where
  "natToString n =
    (if n < 10 then [char_of (48 + n)] else natToString (n div 10) @ [char_of (48 + n mod 10)])"

declare natToString.simps [simp del]

definition numberToString :: "int \<Rightarrow> string" where
  "numberToString n = (if n < 0 then CHR ''-'' # natToString (nat (- n)) else natToString (nat n))"

definition tenthsToFixed1 :: "int \<Rightarrow> string" where
  "tenthsToFixed1 n =
    (if n < 0 then ''-'' else []) @ natToString (nat \<bar>n\<bar> div 10) @ ''.'' @ natToString (nat \<bar>n\<bar> mod 10)"




subsection \<open>The raw detail record\<close>

text \<open>
  The interfaces \<^verbatim>\<open>PokeApiPokemon\<close> and its parts. A nested object with the
  fields \<^verbatim>\<open>name\<close> and \<^verbatim>\<open>url\<close> is flattened into two fields of the
  enclosing record. The optional chain
  \<^verbatim>\<open>sprites.other?.['official-artwork']?.front_default\<close> is one optional field: it
  is \<open>None\<close> when any link of the chain is missing or the value is \<^verbatim>\<open>null\<close>.
  Fields the interface requires are required here; the normalizer's guards against
  their absence (\<^verbatim>\<open>pokemon.types ?? []\<close>, \<^verbatim>\<open>entry?.ability?.name\<close>) have
  nothing to do on a value of the interface.
\<close>

record PokeApiTypeSlot =
  slot :: int
  type_name :: string

record PokeApiAbility =
  ability_name :: string
  ability_url :: string
  is_hidden :: bool

record PokeApiMoveVersionDetail =
  level_learned_at :: int
  move_learn_method_name :: string
  move_learn_method_url :: string
  version_group_name :: string
  version_group_url :: string

record PokeApiMove =
  move_name :: string
  move_url :: string
  version_group_details :: "PokeApiMoveVersionDetail list"

record PokeApiSprites =
  front_default :: "string option"
  official_artwork_front_default :: "string option"

record PokeApiPokemon =
  pokemon_id :: int
  pokemon_name :: string
  height :: int
  weight :: int
  sprites :: PokeApiSprites
  stats :: "PokeApiStat list"
  pokemon_types :: "PokeApiTypeSlot list"
  abilities :: "PokeApiAbility list"
  moves :: "PokeApiMove list"
  species_name :: string
  species_url :: string

subsection \<open>The normalizer\<close>

text \<open>\<^verbatim>\<open>stats.find((stat) => stat.stat.name === name)?.base_stat ?? 0\<close>\<close>

definition getStat :: "PokeApiStat list \<Rightarrow> string \<Rightarrow> int" where
  "getStat sts n = (case find (\<lambda>stat. stat_name stat = n) sts of Some stat \<Rightarrow> base_stat stat | None \<Rightarrow> 0)"

text \<open>An array literal, without holes.\<close>

definition array :: "jv list \<Rightarrow> jv" where
  "array items = JArr (map Some items)"

text \<open>The separator \<^verbatim>\<open>' \<bullet> '\<close> of the summaries, the bullet in UTF-8.\<close>

definition bullet :: string where
  "bullet = [CHR '' '', CHR 0xE2, CHR 0x80, CHR 0xA2, CHR '' '']"

text \<open>\<^verbatim>\<open>s.replace(/[-_]/g, ' ')\<close> and \<^verbatim>\<open>s.replace(/-/g, ' ')\<close>\<close>

definition replaceChars :: "(char \<Rightarrow> bool) \<Rightarrow> string \<Rightarrow> string" where
  "replaceChars p s = map (\<lambda>c. if p c then CHR '' '' else c) s"

text \<open>\<^verbatim>\<open>v || d\<close> for a string \<open>v\<close> that may be missing, null or empty.\<close>

definition orElse :: "string option \<Rightarrow> string \<Rightarrow> string" where
  "orElse v d = (case v of None \<Rightarrow> d | Some s \<Rightarrow> if s = [] then d else s)"

text \<open>
  \<^verbatim>\<open>move.version_group_details?.find((entry) => entry.level_learned_at > 0) ??
  move.version_group_details?.[0]\<close>
\<close>

definition moveDetail :: "PokeApiMove \<Rightarrow> PokeApiMoveVersionDetail option" where
  "moveDetail move =
    (case find (\<lambda>entry. level_learned_at entry > 0) (version_group_details move) of
       Some entry \<Rightarrow> Some entry
     | None \<Rightarrow> (case version_group_details move of [] \<Rightarrow> None | entry # _ \<Rightarrow> Some entry))"

text \<open>
  \<^verbatim>\<open>Array.from(new Map(entries).values())\<close>: a key keeps the position of its first
  entry and takes the value of its last.
\<close>

fun mapSet :: "(string \<times> 'a) list \<Rightarrow> string \<Rightarrow> 'a \<Rightarrow> (string \<times> 'a) list" where
  "mapSet [] k v = [(k, v)]"
| "mapSet ((k', v') # m) k v = (if k' = k then (k, v) # m else (k', v') # mapSet m k v)"

definition uniqueByName :: "(string \<times> 'a) list \<Rightarrow> 'a list" where
  "uniqueByName entries = map snd (foldl (\<lambda>m (k, v). mapSet m k v) [] entries)"

text \<open>
  A conditional spread \<^verbatim>\<open>...(cond ? { k: v } : {})\<close>; \<open>optionalString\<close> is the
  spread whose condition is the string itself. \<open>infoLine\<close> is one
  \<^verbatim>\<open>if (s) infoText.push(label + s)\<close>.
\<close>

definition optionalProp :: "bool \<Rightarrow> string \<Rightarrow> jv \<Rightarrow> (string \<times> jv) list" where
  "optionalProp present k v = (if present then [(k, v)] else [])"

definition optionalString :: "string \<Rightarrow> string option \<Rightarrow> (string \<times> jv) list" where
  "optionalString k s = (case s of None \<Rightarrow> [] | Some t \<Rightarrow> if t \<noteq> [] then [(k, JStr t)] else [])"

definition infoLine :: "string \<Rightarrow> string option \<Rightarrow> string list" where
  "infoLine label s = (case s of None \<Rightarrow> [] | Some t \<Rightarrow> if t \<noteq> [] then [label @ t] else [])"

text \<open>\<^verbatim>\<open>n ? toTitleCase(n.replace(/-/g, ' ')) : undefined\<close>\<close>

definition learnedName :: "string \<Rightarrow> string option" where
  "learnedName n =
    (if n \<noteq> [] then Some (toTitleCase (replaceChars (\<lambda>c. c = CHR ''-'') n)) else None)"

text \<open>
  The intermediate lists of the normalizer, as tuples: an ability is its name and its
  hidden flag; a base stat its name and value; a top move its name, level, learn
  method and version group; an attack its name, cost, converted energy cost and text.
\<close>

type_synonym ability = "string \<times> bool"
type_synonym baseStat = "string \<times> int"
type_synonym topMove = "string \<times> int option \<times> string option \<times> string option"
type_synonym attack = "string \<times> string list \<times> int \<times> string option"

definition cardAbilities :: "PokeApiPokemon \<Rightarrow> ability list" where
  "cardAbilities pokemon =
    map (\<lambda>entry. (toTitleCase (ability_name entry), is_hidden entry))
      (filter (\<lambda>entry. ability_name entry \<noteq> []) (abilities pokemon))"

definition cardBaseStats :: "PokeApiPokemon \<Rightarrow> baseStat list" where
  "cardBaseStats pokemon =
    map (\<lambda>stat. (toTitleCase (replaceChars (\<lambda>c. c = CHR ''-'' \<or> c = CHR ''_'') (stat_name stat)),
                   base_stat stat)) (stats pokemon)"

definition cardTopMoves :: "PokeApiPokemon \<Rightarrow> topMove list" where
  "cardTopMoves pokemon =
    map (\<lambda>move.
        (let detail = moveDetail move in
         (toTitleCase (move_name move),
          (case detail of None \<Rightarrow> None
           | Some d \<Rightarrow> if level_learned_at d = 0 then None else Some (level_learned_at d)),
          (case detail of None \<Rightarrow> None | Some d \<Rightarrow> learnedName (move_learn_method_name d)),
          (case detail of None \<Rightarrow> None | Some d \<Rightarrow> learnedName (version_group_name d)))))
      (take 6 (filter (\<lambda>m. move_name m \<noteq> []) (moves pokemon)))"

definition cardAttacks :: "string list \<Rightarrow> PokeApiPokemon \<Rightarrow> attack list" where
  "cardAttacks attackCostTypes pokemon =
    filter (\<lambda>(n, cost, cec, txt). n \<noteq> [])
      (map (\<lambda>move.
        (let detail = moveDetail move;
             notes = (case detail of None \<Rightarrow> []
               | Some d \<Rightarrow>
                   (case learnedName (move_learn_method_name d) of None \<Rightarrow> [] | Some n \<Rightarrow> [n])
                 @ (if level_learned_at d > 0 then [''Lv '' @ numberToString (level_learned_at d)] else [])
                 @ (case learnedName (version_group_name d) of None \<Rightarrow> [] | Some n \<Rightarrow> [n]))
         in (toTitleCase (move_name move),
             (if length attackCostTypes > 0 then attackCostTypes else [''Colorless'']),
             max 1 (int (length attackCostTypes)),
             (if length notes > 0 then Some (join bullet notes) else None))))
      (take 3 (filter (\<lambda>m. move_name m \<noteq> []) (moves pokemon))))"

text \<open>The objects that the card holds for the elements of these lists.\<close>

definition attackObject :: "attack \<Rightarrow> jv" where
  "attackObject a =
    (case a of (n, cost, cec, txt) \<Rightarrow>
      JObj ([(''name'', JStr n), (''cost'', array (map JStr cost)), (''convertedEnergyCost'', JNum cec)]
            @ (case txt of None \<Rightarrow> [] | Some t \<Rightarrow> [(''text'', JStr t)])))"

definition abilityObject :: "ability \<Rightarrow> jv" where
  "abilityObject a = (case a of (n, hidden) \<Rightarrow> JObj [(''name'', JStr n), (''hidden'', JBool hidden)])"

definition baseStatObject :: "baseStat \<Rightarrow> jv" where
  "baseStatObject b = (case b of (n, v) \<Rightarrow> JObj [(''name'', JStr n), (''value'', JNum v)])"

definition topMoveObject :: "topMove \<Rightarrow> jv" where
  "topMoveObject m =
    (case m of (n, lvl, method, vg) \<Rightarrow>
      JObj [(''name'', JStr n),
            (''levelLearnedAt'', (case lvl of None \<Rightarrow> JUndefined | Some l \<Rightarrow> JNum l)),
            (''learnMethod'', (case method of None \<Rightarrow> JUndefined | Some s \<Rightarrow> JStr s)),
            (''versionGroup'', (case vg of None \<Rightarrow> JUndefined | Some s \<Rightarrow> JStr s))])"

text \<open>
  The object literal \<^verbatim>\<open>card\<close> that \<^verbatim>\<open>mapPokemonToCard\<close> assembles, its
  properties in the order of the source, as a function of the values computed before
  it.
\<close>

definition cardObject :: "int \<Rightarrow> string \<Rightarrow> string \<Rightarrow> GenerationRange \<Rightarrow> string \<Rightarrow> string \<Rightarrow> string list
    \<Rightarrow> int \<Rightarrow> int \<Rightarrow> int \<Rightarrow> int \<Rightarrow> int \<Rightarrow> int \<Rightarrow> int \<Rightarrow> string list \<Rightarrow> attack list
    \<Rightarrow> string option \<Rightarrow> string option \<Rightarrow> string option \<Rightarrow> string option \<Rightarrow> string option
    \<Rightarrow> ability list \<Rightarrow> baseStat list \<Rightarrow> topMove list \<Rightarrow> jv" where
  "cardObject pid pname rarityName generation smallSprite officialArt typeNames hpStat atk def spAtk spDef spd
      retreatCost infoText attacks formattedHeight formattedWeight abilitySummary statsSummary
      moveNames abilityList baseStatList uniqueTopMoves =
    JObj (
       [(''id'', JStr (numberToString pid)),
        (''localId'', JStr (numberToString pid)),
        (''name'', JStr (toTitleCase pname)),
        (''image'', JStr smallSprite),
        (''imageHiRes'', JStr officialArt),
        (''rarity'', JStr rarityName),
        (''set'', JObj [(''id'', JStr (range_id generation)), (''name'', JStr (displayName generation)),
                       (''logo'', JStr [])]),
        (''serie'', JObj [(''id'', JStr (range_id generation)), (''name'', JStr (displayName generation))]),
        (''category'', JStr ''Pokemon''),
        (''dexId'', array [JNum pid]),
        (''types'', array (map JStr typeNames)),
        (''subtypes'', array [])]
       @ optionalProp (hpStat \<noteq> 0) ''hp'' (JStr (numberToString hpStat))
       @ optionalProp (atk \<noteq> 0) ''attack'' (JStr (numberToString atk))
       @ optionalProp (def \<noteq> 0) ''defense'' (JStr (numberToString def))
       @ optionalProp (spAtk \<noteq> 0) ''specialAttack'' (JStr (numberToString spAtk))
       @ optionalProp (spDef \<noteq> 0) ''specialDefense'' (JStr (numberToString spDef))
       @ optionalProp (spd \<noteq> 0) ''speed'' (JStr (numberToString spd))
       @ [(''retreatCost'', JStr (numberToString retreatCost)),
          (''convertedRetreatCost'', JNum retreatCost),
          (''number'', JStr (numberToString pid)),
          (''series'', JStr (displayName generation)),
          (''setCode'', JStr (setCode generation))]
       @ optionalProp (length infoText \<noteq> 0) ''text'' (array (map JStr infoText))
       @ optionalProp (length attacks \<noteq> 0) ''attacks'' (array (map attackObject attacks))
       @ [(''weaknesses'', array []),
          (''resistances'', array []),
          (''evolvesFrom'', JUndefined),
          (''evolvesTo'', array []),
          (''nationalPokedexNumbers'', array [JNum pid]),
          (''legal'', JObj [(''standard'', JBool True), (''expanded'', JBool True)]),
          (''regulationMark'', JStr []),
          (''images'', JObj [(''small'', JStr smallSprite), (''large'', JStr officialArt)])]
       @ optionalString ''height'' formattedHeight
       @ optionalString ''weight'' formattedWeight
       @ optionalString ''abilitiesSummary'' abilitySummary
       @ optionalString ''baseStatsSummary'' statsSummary
       @ optionalString ''movesSummary'' moveNames
       @ optionalProp (length abilityList \<noteq> 0) ''abilities'' (array (map abilityObject abilityList))
       @ optionalProp (length baseStatList \<noteq> 0) ''baseStats'' (array (map baseStatObject baseStatList))
       @ optionalProp (length uniqueTopMoves \<noteq> 0) ''topMoves'' (array (map topMoveObject uniqueTopMoves)))"

definition mapPokemonToCard :: "PokeApiPokemon \<Rightarrow> jv" where
  "mapPokemonToCard pokemon =
    (let generation = getGenerationByDexId (pokemon_id pokemon);
         types = map (\<lambda>typeSlot. toTitleCase (type_name typeSlot)) (pokemon_types pokemon);
         officialArt = orElse (official_artwork_front_default (sprites pokemon))
           (''https://raw.githubusercontent.com/PokeAPI/sprites/master/sprites/pokemon/other/official-artwork/''
             @ numberToString (pokemon_id pokemon) @ ''.png'');
         smallSprite = orElse (front_default (sprites pokemon)) officialArt;
         hp = getStat (stats pokemon) ''hp'';
         atk = getStat (stats pokemon) ''attack'';
         def = getStat (stats pokemon) ''defense'';
         spAtk = getStat (stats pokemon) ''special-attack'';
         spDef = getStat (stats pokemon) ''special-defense'';
         spd = getStat (stats pokemon) ''speed'';
         retreatCost = max (int (length types)) 1;
         abilities = cardAbilities pokemon;
         abilitySummary =
           (if length abilities \<noteq> 0
            then Some (join '', '' (map (\<lambda>(n, hidden). if hidden then n @ '' (Hidden)'' else n) abilities))
            else None);
         baseStats = cardBaseStats pokemon;
         statsSummary =
           (if length baseStats > 0
            then Some (join bullet (map (\<lambda>(n, v). n @ '' '' @ numberToString v) baseStats))
            else None);
         topMoves = cardTopMoves pokemon;
         uniqueTopMoves = uniqueByName (map (\<lambda>m. (fst m, m)) topMoves);
         moveNames =
           (if length uniqueTopMoves \<noteq> 0 then Some (join '', '' (map fst uniqueTopMoves)) else None);
         formattedHeight =
           (if height pokemon \<noteq> 0 then Some (tenthsToFixed1 (height pokemon) @ '' m'') else None);
         formattedWeight =
           (if weight pokemon \<noteq> 0 then Some (tenthsToFixed1 (weight pokemon) @ '' kg'') else None);
         infoText =
             infoLine ''Abilities: '' abilitySummary
           @ infoLine ''Height: '' formattedHeight
           @ infoLine ''Weight: '' formattedWeight
           @ infoLine ''Base Stats: '' statsSummary
           @ infoLine ''Moves: '' moveNames;
         attackCostTypes =
           (if length types > 0 then take (min (length types) 2) types else [''Colorless'']);
         attacks = cardAttacks attackCostTypes pokemon
     in stripEmpty
          (cardObject (pokemon_id pokemon) (pokemon_name pokemon) (getRarityFromStats (stats pokemon))
             generation smallSprite officialArt types hp atk def spAtk spDef spd retreatCost
             infoText attacks formattedHeight formattedWeight abilitySummary statsSummary
             moveNames abilities baseStats uniqueTopMoves))"

text \<open>A raw record to run the normalizer on.\<close>

definition ditto :: PokeApiPokemon where
  "ditto =
    \<lparr>pokemon_id = 132, pokemon_name = ''ditto'', height = 3, weight = 0,
     sprites = \<lparr>front_default = Some ''https://img.example/132.png'',
                official_artwork_front_default = Some ''https://img.example/art/132.png''\<rparr>,
     stats = [\<lparr>base_stat = 48, stat_name = ''hp''\<rparr>],
     pokemon_types = [\<lparr>slot = 1, type_name = ''normal''\<rparr>],
     abilities = [], moves = [], species_name = ''ditto'', species_url = ''u''\<rparr>"

subsection \<open>No empty attribute at any depth\<close>

text \<open>
  \<open>noEmpty v\<close>: no property of \<open>v\<close> and no element of an array of \<open>v\<close>, at
  any depth, is \<^verbatim>\<open>undefined\<close>, \<^verbatim>\<open>null\<close>, an empty string, an empty array or
  an empty object, and no array has a hole. \<open>flat v\<close>: no array of \<open>v\<close> has a
  hole or an array among its elements; the card that the normalizer assembles is flat.
\<close>

fun isArray :: "jv \<Rightarrow> bool" where
  "isArray (JArr slots) = True"
| "isArray _ = False"

fun noEmpty :: "jv \<Rightarrow> bool" where
  "noEmpty (JObj props) = list_all (\<lambda>(k, v). \<not> isEmptyValue v \<and> noEmpty v) props"
| "noEmpty (JArr slots) =
    list_all (\<lambda>slot. case slot of None \<Rightarrow> False | Some v \<Rightarrow> \<not> isEmptyValue v \<and> noEmpty v) slots"
| "noEmpty _ = True"

fun flat :: "jv \<Rightarrow> bool" where
  "flat (JObj props) = list_all (\<lambda>(k, v). flat v) props"
| "flat (JArr slots) =
    list_all (\<lambda>slot. case slot of None \<Rightarrow> False | Some v \<Rightarrow> \<not> isArray v \<and> flat v) slots"
| "flat _ = True"

lemma noEmpty_stripItem:
  assumes "\<not> isArray x" and "\<And>props. x = JObj props \<Longrightarrow> noEmpty (stripEmpty x)"
  shows "noEmpty (stripItem x)"
  using assms by (cases x) (simp_all add: stripItem_def del: stripEmpty.simps)

lemma strip_noEmpty:
  "flat v \<Longrightarrow>
     (\<forall>props. v = JObj props \<longrightarrow> noEmpty (stripEmpty v))
   \<and> (\<forall>v'. stripProp v = Some v' \<longrightarrow> noEmpty v')"
proof (induction v)
  case (JArr slots)
  have elems: "\<not> isArray x \<and> flat x" if "Some x \<in> set slots" for x
    using JArr.prems that by (auto simp: list_all_iff split: option.splits)
  have ih: "noEmpty (stripEmpty x)" if "Some x \<in> set slots" "x = JObj props" for x props
    using JArr.IH [of "Some x" x] elems [OF that(1)] that by simp
  have "noEmpty v'" if v': "stripProp (JArr slots) = Some v'" for v'
  proof -
    define items where "items = filter (\<lambda>item. \<not> isEmptyValue item)
           (concat (map (\<lambda>slot. case slot of None \<Rightarrow> [] | Some item \<Rightarrow> [stripItem item]) slots))"
    from v' have eq: "v' = JArr (map Some items)"
      unfolding stripProp_JArr items_def Let_def by (auto split: if_splits)
    have "\<not> isEmptyValue y \<and> noEmpty y" if "y \<in> set items" for y
    proof -
      from that obtain x where x: "Some x \<in> set slots" "y = stripItem x" and ne: "\<not> isEmptyValue y"
        unfolding items_def by (auto simp: set_concat_slots)
      from elems [OF x(1)] ih [OF x(1)] have "noEmpty (stripItem x)"
        by (intro noEmpty_stripItem) auto
      with ne x(2) show ?thesis by simp
    qed
    then show ?thesis
      unfolding eq by (simp add: list_all_iff)
  qed
  then show ?case by simp
next
  case (JObj props)
  have ih: "noEmpty x'" if "(k, x) \<in> set props" "stripProp x = Some x'" for k x x'
  proof -
    from JObj.prems that(1) have "flat x"
      by (auto simp: list_all_iff)
    with JObj.IH [of "(k, x)" x] that show ?thesis by simp
  qed
  have a: "noEmpty (stripEmpty (JObj props))"
    using ih stripProp_not_empty
    by (fastforce simp: list_all_iff split: option.splits)
  have b: "noEmpty v'" if "stripProp (JObj props) = Some v'" for v'
    using that a by (auto simp: Let_def simp del: stripEmpty.simps noEmpty.simps split: if_splits)
  from a b show ?case by blast
qed simp_all

lemma noEmpty_stripEmpty_object: "flat (JObj props) \<Longrightarrow> noEmpty (stripEmpty (JObj props))"
  using strip_noEmpty [of "JObj props"] by blast

lemma flat_append: "flat (JObj (ps @ qs)) \<longleftrightarrow> flat (JObj ps) \<and> flat (JObj qs)"
  by simp

lemma flat_optionalProp: "flat v \<Longrightarrow> flat (JObj (optionalProp b k v))"
  by (simp add: optionalProp_def)

lemma flat_optionalString: "flat (JObj (optionalString k s))"
  by (simp add: optionalString_def split: option.split)

lemma flat_array: "flat (array xs) \<longleftrightarrow> (\<forall>x \<in> set xs. \<not> isArray x \<and> flat x)"
  by (simp add: array_def list_all_iff)

lemma flat_array_JStr: "flat (array (map JStr xs))"
  by (simp add: flat_array)

lemma flat_attackObject: "\<not> isArray (attackObject a) \<and> flat (attackObject a)"
  by (cases a) (simp add: attackObject_def flat_array_JStr split: option.split)

lemma flat_abilityObject: "\<not> isArray (abilityObject a) \<and> flat (abilityObject a)"
  by (cases a) (simp add: abilityObject_def)

lemma flat_baseStatObject: "\<not> isArray (baseStatObject a) \<and> flat (baseStatObject a)"
  by (cases a) (simp add: baseStatObject_def)

lemma flat_topMoveObject: "\<not> isArray (topMoveObject a) \<and> flat (topMoveObject a)"
  by (cases a) (simp add: topMoveObject_def split: option.split)

lemma flat_cardObject:
  "flat (cardObject pid pname rarityName generation smallSprite officialArt typeNames hpStat atk def
      spAtk spDef spd retreatCost infoText attacks formattedHeight formattedWeight abilitySummary
      statsSummary moveNames abilityList baseStatList uniqueTopMoves)"
  unfolding cardObject_def flat_append
  by (intro conjI flat_optionalProp flat_optionalString)
     (simp_all add: flat_array flat_attackObject flat_abilityObject flat_baseStatObject
        flat_topMoveObject)

lemma cardObject_is_object:
  "\<exists>props. cardObject pid pname rarityName generation smallSprite officialArt typeNames hpStat atk def
      spAtk spDef spd retreatCost infoText attacks formattedHeight formattedWeight abilitySummary
      statsSummary moveNames abilityList baseStatList uniqueTopMoves = JObj props"
  unfolding cardObject_def by blast

lemma mapPokemonToCard_stripped:
  "\<exists>props. flat (JObj props) \<and> mapPokemonToCard pokemon = stripEmpty (JObj props)"
  unfolding mapPokemonToCard_def Let_def
  using flat_cardObject cardObject_is_object by metis

text \<open>
  Claim C1. For every raw detail record the card that \<open>mapPokemonToCard\<close> returns
  has no attribute, at any nesting depth, whose value is null or undefined, an empty
  string, an empty list or an empty mapping; applying \<open>stripEmpty\<close> to it again
  changes nothing; and \<open>stripEmpty\<close> is idempotent on every value.
\<close>

theorem mapPokemonToCard_noEmpty_stripEmpty_idempotent:
  "noEmpty (mapPokemonToCard pokemon)
   \<and> stripEmpty (mapPokemonToCard pokemon) = mapPokemonToCard pokemon
   \<and> stripEmpty (stripEmpty v) = stripEmpty v"
proof -
  from mapPokemonToCard_stripped obtain props
    where props: "flat (JObj props)" "mapPokemonToCard pokemon = stripEmpty (JObj props)"
    by blast
  have "noEmpty (mapPokemonToCard pokemon)"
    unfolding props(2) using props(1) by (rule noEmpty_stripEmpty_object)
  moreover have "stripEmpty (mapPokemonToCard pokemon) = mapPokemonToCard pokemon"
    unfolding props(2) using strip_idem [of "JObj props"] by blast
  moreover have "stripEmpty (stripEmpty v) = stripEmpty v"
    using strip_idem [of v] by blast
  ultimately show ?thesis by blast
qed

text \<open>
  The theorem on the record \<open>ditto\<close>, whose card is computed in full: of the
  properties assembled, the empty ones (\<^verbatim>\<open>subtypes\<close>, \<^verbatim>\<open>set.logo\<close>,
  \<^verbatim>\<open>weaknesses\<close>, \<^verbatim>\<open>evolvesFrom\<close>, \<^verbatim>\<open>regulationMark\<close> and others) are
  gone.
\<close>

theorem mapPokemonToCard_noEmpty_stripEmpty_idempotent_witness:
  "mapPokemonToCard ditto =
     JObj
      [(''id'', JStr ''132''), (''localId'', JStr ''132''), (''name'', JStr ''Ditto''),
       (''image'', JStr ''https://img.example/132.png''),
       (''imageHiRes'', JStr ''https://img.example/art/132.png''),
       (''rarity'', JStr ''Common''),
       (''set'', JObj [(''id'', JStr ''generation-i''), (''name'', JStr ''Generation I'')]),
       (''serie'', JObj [(''id'', JStr ''generation-i''), (''name'', JStr ''Generation I'')]),
       (''category'', JStr ''Pokemon''), (''dexId'', JArr [Some (JNum 132)]),
       (''types'', JArr [Some (JStr ''Normal'')]), (''hp'', JStr ''48''),
       (''retreatCost'', JStr ''1''), (''convertedRetreatCost'', JNum 1),
       (''number'', JStr ''132''), (''series'', JStr ''Generation I''),
       (''setCode'', JStr ''GEN1''),
       (''text'', JArr [Some (JStr ''Height: 0.3 m''), Some (JStr ''Base Stats: Hp 48'')]),
       (''nationalPokedexNumbers'', JArr [Some (JNum 132)]),
       (''legal'', JObj [(''standard'', JBool True), (''expanded'', JBool True)]),
       (''images'', JObj [(''small'', JStr ''https://img.example/132.png''),
                         (''large'', JStr ''https://img.example/art/132.png'')]),
       (''height'', JStr ''0.3 m''), (''baseStatsSummary'', JStr ''Hp 48''),
       (''baseStats'', JArr [Some (JObj [(''name'', JStr ''Hp''), (''value'', JNum 48)])])]
   \<and> noEmpty (mapPokemonToCard ditto)
   \<and> stripEmpty (mapPokemonToCard ditto) = mapPokemonToCard ditto"
proof -
  have "mapPokemonToCard ditto =
     JObj
      [(''id'', JStr ''132''), (''localId'', JStr ''132''), (''name'', JStr ''Ditto''),
       (''image'', JStr ''https://img.example/132.png''),
       (''imageHiRes'', JStr ''https://img.example/art/132.png''),
       (''rarity'', JStr ''Common''),
       (''set'', JObj [(''id'', JStr ''generation-i''), (''name'', JStr ''Generation I'')]),
       (''serie'', JObj [(''id'', JStr ''generation-i''), (''name'', JStr ''Generation I'')]),
       (''category'', JStr ''Pokemon''), (''dexId'', JArr [Some (JNum 132)]),
       (''types'', JArr [Some (JStr ''Normal'')]), (''hp'', JStr ''48''),
       (''retreatCost'', JStr ''1''), (''convertedRetreatCost'', JNum 1),
       (''number'', JStr ''132''), (''series'', JStr ''Generation I''),
       (''setCode'', JStr ''GEN1''),
       (''text'', JArr [Some (JStr ''Height: 0.3 m''), Some (JStr ''Base Stats: Hp 48'')]),
       (''nationalPokedexNumbers'', JArr [Some (JNum 132)]),
       (''legal'', JObj [(''standard'', JBool True), (''expanded'', JBool True)]),
       (''images'', JObj [(''small'', JStr ''https://img.example/132.png''),
                         (''large'', JStr ''https://img.example/art/132.png'')]),
       (''height'', JStr ''0.3 m''), (''baseStatsSummary'', JStr ''Hp 48''),
       (''baseStats'', JArr [Some (JObj [(''name'', JStr ''Hp''), (''value'', JNum 48)])])]"
    by code_simp
  with mapPokemonToCard_noEmpty_stripEmpty_idempotent [of ditto JNull]
  show ?thesis by blast
qed

section \<open>The data-acquisition layer\<close>

subsection \<open>The remote API, the state of the module\<close>

text \<open>
  The remote API is what \<^verbatim>\<open>apiClient.get\<close> answers: for each endpoint the
  response data, or the error the request is rejected with. The state of the module
  is its caches and its pending index promise (named by a number), together with the
  log of the requests issued, which the code does not keep: it is there to count them.
  An asynchronous function is modelled by what it resolves or rejects to (\<open>Inr\<close>,
  \<open>Inl\<close>) and the state it leaves, for one caller that runs to completion;
  the index loader and the batch fetcher, whose claims are about callers and workers
  that interleave, are modelled by their steps.
\<close>

record PokeApiListItem =
  item_name :: string
  item_url :: string

record PokeApiListResponse =
  results :: "PokeApiListItem list"
  count :: int

datatype error = Error string

datatype request = GetPokemonList int int | GetPokemon string | GetTypes | GetGenerations

record remote =
  pokemonList :: "int \<Rightarrow> int \<Rightarrow> error + PokeApiListResponse"
  pokemonDetail :: "string \<Rightarrow> error + PokeApiPokemon"
  typeList :: "error + PokeApiListItem list"
  generationList :: "error + PokeApiListItem list"

record api =
  pokemonCache :: "(string \<times> jv) list"
  pokemonIndexCache :: "PokeApiListItem list option"
  pokemonIndexPromise :: "nat option"
  promisesCreated :: nat
  requests :: "request list"

definition POKEMON_INDEX_LIMIT :: int where
  "POKEMON_INDEX_LIMIT = 5000"

text \<open>Issuing a request: one more entry in the log.\<close>

definition apiClient_get :: "request \<Rightarrow> api \<Rightarrow> api" where
  "apiClient_get r st = st\<lparr>requests := requests st @ [r]\<rparr>"

text \<open>\<^verbatim>\<open>s.trim()\<close> and \<^verbatim>\<open>s.includes(t)\<close>\<close>

definition trim :: "string \<Rightarrow> string" where
  "trim s = rev (dropWhile isStrWhiteSpaceChar (rev (dropWhile isStrWhiteSpaceChar s)))"

fun startsWith :: "string \<Rightarrow> string \<Rightarrow> bool" where
  "startsWith s [] = True"
| "startsWith [] (c # t) = False"
| "startsWith (d # s) (c # t) = (d = c \<and> startsWith s t)"

fun stringIncludes :: "string \<Rightarrow> string \<Rightarrow> bool" where
  "stringIncludes [] t = (t = [])"
| "stringIncludes (c # s) t = (startsWith (c # s) t \<or> stringIncludes s t)"

subsection \<open>The operations\<close>


text \<open>
  \<^verbatim>\<open>card.id\<close>, \<^verbatim>\<open>card.name\<close>: reading a property, undefined when it is
  missing. \<open>cacheKey\<close> is \<^verbatim>\<open>key !== undefined ? key.toString().toLowerCase() : ''\<close>
  on the keys that \<^verbatim>\<open>fetchPokemonById\<close> passes (strings, or undefined).
\<close>

definition property :: "jv \<Rightarrow> string \<Rightarrow> jv" where
  "property v k = (case v of JObj props \<Rightarrow> (case map_of props k of Some x \<Rightarrow> x | None \<Rightarrow> JUndefined)
                   | _ \<Rightarrow> JUndefined)"

definition cacheKey :: "jv \<Rightarrow> string" where
  "cacheKey k = (case k of JStr s \<Rightarrow> toLowerCase s | JNum n \<Rightarrow> toLowerCase (numberToString n) | _ \<Rightarrow> [])"

definition cachePokemonCard :: "jv \<Rightarrow> jv list \<Rightarrow> api \<Rightarrow> api" where
  "cachePokemonCard c keys st =
    st\<lparr>pokemonCache :=
         foldl (\<lambda>m k. mapSet m k c) (pokemonCache st)
           (filter (\<lambda>k. length k > 0) (map cacheKey keys))\<rparr>"

definition fetchPokemonById :: "remote \<Rightarrow> string \<Rightarrow> api \<Rightarrow> (error + jv) \<times> api" where
  "fetchPokemonById net ident st =
    (let key = toLowerCase ident in
     case map_of (pokemonCache st) key of
       Some cached \<Rightarrow> (Inr cached, st)
     | None \<Rightarrow>
        (let st' = apiClient_get (GetPokemon key) st in
         case pokemonDetail net key of
           Inr data \<Rightarrow>
             (let c = mapPokemonToCard data in
              (Inr c, cachePokemonCard c
                 [JStr ident, property c ''id'', property c ''localId'', property c ''name'',
                  JStr (pokemon_name data)] st'))
         | Inl e \<Rightarrow> (Inl (Error ''Failed to fetch pokemon details''), st')))"

text \<open>
  The index loader has no \<^verbatim>\<open>await\<close>: a call runs to its end at once and returns
  the cached index, or the pending promise. The first call of a cold module creates the
  promise and issues the request (\<open>fetchPokemonIndex_call\<close>). When the request is
  answered, the handlers of the promise set the cache (or leave it unset) and clear the
  promise (\<open>fetchPokemonIndex_settle\<close>); the value is what every caller that awaits
  the promise receives. \<open>fetchPokemonIndex\<close> is one call followed by the answer.
\<close>

datatype 'a awaited = Resolved 'a | Pending nat

definition fetchPokemonIndex_call :: "api \<Rightarrow> (PokeApiListItem list) awaited \<times> api" where
  "fetchPokemonIndex_call st =
    (case pokemonIndexCache st of
       Some index \<Rightarrow> (Resolved index, st)
     | None \<Rightarrow>
        (case pokemonIndexPromise st of
           Some p \<Rightarrow> (Pending p, st)
         | None \<Rightarrow>
            (let p = promisesCreated st;
                 st' = apiClient_get (GetPokemonList 0 POKEMON_INDEX_LIMIT) st
             in (Pending p, st'\<lparr>pokemonIndexPromise := Some p, promisesCreated := p + 1\<rparr>))))"

definition fetchPokemonIndex_settle ::
  "(error + PokeApiListResponse) \<Rightarrow> api \<Rightarrow> (error + PokeApiListItem list) \<times> api" where
  "fetchPokemonIndex_settle answer st =
    (case answer of
       Inr response \<Rightarrow>
         (Inr (results response),
          st\<lparr>pokemonIndexCache := Some (results response), pokemonIndexPromise := None\<rparr>)
     | Inl e \<Rightarrow>
         (Inl (Error ''Failed to fetch pokemon''),
          st\<lparr>pokemonIndexCache := None, pokemonIndexPromise := None\<rparr>))"

definition fetchPokemonIndex :: "remote \<Rightarrow> api \<Rightarrow> (error + PokeApiListItem list) \<times> api" where
  "fetchPokemonIndex net st =
    (case fetchPokemonIndex_call st of
       (Resolved index, st') \<Rightarrow> (Inr index, st')
     | (Pending p, st') \<Rightarrow> fetchPokemonIndex_settle (pokemonList net 0 POKEMON_INDEX_LIMIT) st')"

text \<open>
  \<^verbatim>\<open>a.name\<close> as the comparator of \<^verbatim>\<open>searchPokemon\<close> reads it. The interface
  \<^verbatim>\<open>PokemonCard\<close> requires the name, and the comparator is modelled for cards that
  have it (\<open>hasName\<close>, below): on a card whose name the strip-empty pass has
  removed, \<^verbatim>\<open>a.name.localeCompare\<close> would raise.
  The call of the batch fetcher is the parameter \<open>fetchPokemonDetailsBatch\<close>: any
  function from the matched entries and the state to the cards fetched and the state
  left.
\<close>

definition cardName :: "jv \<Rightarrow> string" where
  "cardName c = (case property c ''name'' of JStr s \<Rightarrow> s | _ \<Rightarrow> [])"

definition searchPokemon ::
  "(string \<Rightarrow> string \<Rightarrow> int) \<Rightarrow> remote \<Rightarrow> (PokeApiListItem list \<Rightarrow> api \<Rightarrow> jv list \<times> api)
    \<Rightarrow> string \<Rightarrow> api \<Rightarrow> (error + jv list) \<times> api" where
  "searchPokemon localeCompare net fetchPokemonDetailsBatch query st =
    (let normalized = toLowerCase (trim query) in
     if normalized = [] then (Inr [], st)
     else
       (case fetchPokemonIndex net st of
          (Inl e, st') \<Rightarrow> (Inl (Error ''Failed to search pokemon''), st')
        | (Inr index, st') \<Rightarrow>
            (let matched = filter (\<lambda>pokemon. stringIncludes (item_name pokemon) normalized
                                      \<or> item_name pokemon = normalized) index;
                 (cards, st'') = fetchPokemonDetailsBatch matched st'
             in (Inr (arraySort (\<lambda>a b. localeCompare (cardName a) (cardName b)) cards), st''))))"



definition fetchRarities :: "string list" where
  "fetchRarities = [''Common'', ''Uncommon'', ''Rare'', ''Epic'', ''Legendary'']"

text \<open>
  One batch fetcher to run examples with: the items are fetched one after the other,
  in their order, and the failed ones are left out.
\<close>

fun fetchPokemonDetailsInOrder :: "remote \<Rightarrow> PokeApiListItem list \<Rightarrow> api \<Rightarrow> jv list \<times> api" where
  "fetchPokemonDetailsInOrder net [] st = ([], st)"
| "fetchPokemonDetailsInOrder net (item # items) st =
    (case fetchPokemonById net (item_name item) st of
       (Inr c, st') \<Rightarrow> (case fetchPokemonDetailsInOrder net items st' of (cs, st'') \<Rightarrow> (c # cs, st''))
     | (Inl e, st') \<Rightarrow> fetchPokemonDetailsInOrder net items st')"

subsection \<open>Properties of the operations\<close>

lemma toLowerCase_Nil_iff: "toLowerCase s = [] \<longleftrightarrow> s = []"
  by (simp add: toLowerCase_def)

lemma trim_blank_iff: "trim s = [] \<longleftrightarrow> (\<forall>c \<in> set s. isStrWhiteSpaceChar c)"
proof
  assume "trim s = []"
  then have "dropWhile isStrWhiteSpaceChar (rev (dropWhile isStrWhiteSpaceChar s)) = []"
    by (simp add: trim_def)
  then have "\<forall>c \<in> set (dropWhile isStrWhiteSpaceChar s). isStrWhiteSpaceChar c"
    by (simp add: dropWhile_eq_Nil_conv)
  then have "dropWhile isStrWhiteSpaceChar s = []"
    using hd_dropWhile [of isStrWhiteSpaceChar s] hd_in_set by blast
  then show "\<forall>c \<in> set s. isStrWhiteSpaceChar c"
    by (simp add: dropWhile_eq_Nil_conv)
next
  assume "\<forall>c \<in> set s. isStrWhiteSpaceChar c"
  then show "trim s = []"
    by (auto simp: trim_def dropWhile_eq_Nil_conv dest: set_dropWhileD)
qed



text \<open>
  Claim C10. When the query is empty or consists of white space only,
  \<open>searchPokemon\<close> resolves to the empty list and leaves the state as it found
  it, whatever the state, the remote API and the batch fetcher are: the index cache is
  not read, and no request is issued (the log of requests is the same).
\<close>

theorem searchPokemon_blank_query:
  "\<forall>c \<in> set query. isStrWhiteSpaceChar c \<Longrightarrow>
     searchPokemon localeCompare net fetchPokemonDetailsBatch query st = (Inr [], st)"
  by (simp add: searchPokemon_def toLowerCase_Nil_iff trim_blank_iff)



subsection \<open>Examples\<close>


text \<open>
  A remote API with three index entries, one of them capitalised, and their detail
  records; a remote API whose every request fails; a module that has just been loaded.
\<close>

definition pokemonNamed :: "int \<Rightarrow> string \<Rightarrow> PokeApiPokemon" where
  "pokemonNamed n s =
    \<lparr>pokemon_id = n, pokemon_name = s, height = 0, weight = 0,
     sprites = \<lparr>front_default = None, official_artwork_front_default = None\<rparr>,
     stats = [\<lparr>base_stat = 45, stat_name = ''hp''\<rparr>], pokemon_types = [],
     abilities = [], moves = [], species_name = s, species_url = []\<rparr>"

definition listItem :: "string \<Rightarrow> PokeApiListItem" where
  "listItem s = \<lparr>item_name = s, item_url = ''https://pokeapi.co/api/v2/pokemon/'' @ s\<rparr>"

definition exampleRemote :: remote where
  "exampleRemote =
    \<lparr>pokemonList = (\<lambda>offset limit.
        Inr \<lparr>results = [listItem ''ivysaur'', listItem ''bulbasaur'', listItem ''Pikachu''], count = 3\<rparr>),
     pokemonDetail = (\<lambda>key.
        if key = ''bulbasaur'' then Inr (pokemonNamed 1 ''bulbasaur'')
        else if key = ''ivysaur'' then Inr (pokemonNamed 2 ''ivysaur'')
        else if key = ''pikachu'' then Inr (pokemonNamed 25 ''pikachu'')
        else Inl (Error ''Request failed with status code 404'')),
     typeList = Inr [listItem ''normal'', listItem ''fire''],
     generationList = Inr [listItem ''generation-i'']\<rparr>"


definition coldApi :: api where
  "coldApi = \<lparr>pokemonCache = [], pokemonIndexCache = None, pokemonIndexPromise = None,
     promisesCreated = 0, requests = []\<rparr>"

subsection \<open>The claims on the examples\<close>

text \<open>The theorem of claim C10 on the empty query and on a query of a space, a tab and a space.\<close>

theorem searchPokemon_blank_query_witness:
  "searchPokemon codeUnitCompare exampleRemote (fetchPokemonDetailsInOrder exampleRemote) [] coldApi
     = (Inr [], coldApi)
   \<and> searchPokemon codeUnitCompare exampleRemote (fetchPokemonDetailsInOrder exampleRemote)
       [CHR '' '', CHR 0x09, CHR '' ''] coldApi = (Inr [], coldApi)"
proof -
  have "\<forall>c \<in> set [CHR '' '', CHR 0x09, CHR '' '']. isStrWhiteSpaceChar c"
    by (simp add: isStrWhiteSpaceChar_def charCode_def)
  then show ?thesis
    using searchPokemon_blank_query [of "[]"]
      searchPokemon_blank_query [of "[CHR '' '', CHR 0x09, CHR '' '']"]
    by simp
qed






subsection \<open>Single flight of the index loader\<close>

text \<open>
  \<open>n\<close> callers that call the index loader one after the other with nothing
  settling in between: each gets what \<open>fetchPokemonIndex_call\<close> returns.
\<close>

fun concurrentCalls :: "nat \<Rightarrow> api \<Rightarrow> (PokeApiListItem list) awaited list \<times> api" where
  "concurrentCalls 0 st = ([], st)"
| "concurrentCalls (Suc n) st =
    (case fetchPokemonIndex_call st of
       (r, st') \<Rightarrow> (case concurrentCalls n st' of (rs, st'') \<Rightarrow> (r # rs, st'')))"

lemma concurrentCalls_pending:
  "pokemonIndexCache st = None \<Longrightarrow> pokemonIndexPromise st = Some p \<Longrightarrow>
     concurrentCalls n st = (replicate n (Pending p), st)"
  by (induction n) (simp_all add: fetchPokemonIndex_call_def)

lemma concurrentCalls_cold:
  assumes "pokemonIndexCache st = None" "pokemonIndexPromise st = None" "0 < n"
  shows "concurrentCalls n st =
     (replicate n (Pending (promisesCreated st)),
      st\<lparr>requests := requests st @ [GetPokemonList 0 POKEMON_INDEX_LIMIT],
         pokemonIndexPromise := Some (promisesCreated st),
         promisesCreated := promisesCreated st + 1\<rparr>)"
proof -
  from assms(3) obtain m where n: "n = Suc m" by (cases n) auto
  let ?st' = "st\<lparr>requests := requests st @ [GetPokemonList 0 POKEMON_INDEX_LIMIT],
         pokemonIndexPromise := Some (promisesCreated st),
         promisesCreated := promisesCreated st + 1\<rparr>"
  have first: "fetchPokemonIndex_call st = (Pending (promisesCreated st), ?st')"
    using assms(1,2) by (simp add: fetchPokemonIndex_call_def apiClient_get_def Let_def)
  have rest: "concurrentCalls m ?st' = (replicate m (Pending (promisesCreated st)), ?st')"
    using assms(1) by (intro concurrentCalls_pending) simp_all
  show ?thesis
    unfolding n using first rest by simp
qed

text \<open>
  Claim C9. When \<open>n\<close> callers (at least one) call the index loader of a cold
  module before the load settles, one request is issued, and every caller gets the same
  pending promise. When the request then fails, the promise rejects, the cache stays
  unset and the promise is cleared, so that the next call issues a new request on a new
  promise. When it succeeds, the cache holds the index, and a later call resolves from
  the cache without a request.
\<close>

theorem fetchPokemonIndex_single_flight:
  assumes "pokemonIndexCache st = None" and "pokemonIndexPromise st = None" and "0 < n"
  shows "\<exists>p st1.
      concurrentCalls n st = (replicate n (Pending p), st1)
    \<and> requests st1 = requests st @ [GetPokemonList 0 POKEMON_INDEX_LIMIT]
    \<and> pokemonIndexPromise st1 = Some p \<and> pokemonIndexCache st1 = None
    \<and> (\<forall>e. \<exists>st2 q st3.
          fetchPokemonIndex_settle (Inl e) st1 = (Inl (Error ''Failed to fetch pokemon''), st2)
        \<and> pokemonIndexCache st2 = None \<and> pokemonIndexPromise st2 = None
        \<and> requests st2 = requests st1
        \<and> fetchPokemonIndex_call st2 = (Pending q, st3) \<and> q \<noteq> p
        \<and> requests st3 = requests st1 @ [GetPokemonList 0 POKEMON_INDEX_LIMIT])
    \<and> (\<forall>response. \<exists>st2.
          fetchPokemonIndex_settle (Inr response) st1 = (Inr (results response), st2)
        \<and> pokemonIndexCache st2 = Some (results response) \<and> pokemonIndexPromise st2 = None
        \<and> fetchPokemonIndex_call st2 = (Resolved (results response), st2)
        \<and> requests st2 = requests st1)"
proof -
  let ?p = "promisesCreated st"
  let ?st1 = "st\<lparr>requests := requests st @ [GetPokemonList 0 POKEMON_INDEX_LIMIT],
         pokemonIndexPromise := Some ?p, promisesCreated := ?p + 1\<rparr>"
  have calls: "concurrentCalls n st = (replicate n (Pending ?p), ?st1)"
    using assms by (rule concurrentCalls_cold)
  have facts: "requests ?st1 = requests st @ [GetPokemonList 0 POKEMON_INDEX_LIMIT]"
    "pokemonIndexPromise ?st1 = Some ?p" "pokemonIndexCache ?st1 = None"
    using assms(1) by simp_all
  have failure: "\<exists>st2 q st3.
          fetchPokemonIndex_settle (Inl e) ?st1 = (Inl (Error ''Failed to fetch pokemon''), st2)
        \<and> pokemonIndexCache st2 = None \<and> pokemonIndexPromise st2 = None
        \<and> requests st2 = requests ?st1
        \<and> fetchPokemonIndex_call st2 = (Pending q, st3) \<and> q \<noteq> ?p
        \<and> requests st3 = requests ?st1 @ [GetPokemonList 0 POKEMON_INDEX_LIMIT]" for e
    by (simp add: fetchPokemonIndex_settle_def fetchPokemonIndex_call_def apiClient_get_def Let_def)
  have success: "\<exists>st2.
          fetchPokemonIndex_settle (Inr response) ?st1 = (Inr (results response), st2)
        \<and> pokemonIndexCache st2 = Some (results response) \<and> pokemonIndexPromise st2 = None
        \<and> fetchPokemonIndex_call st2 = (Resolved (results response), st2)
        \<and> requests st2 = requests ?st1" for response
    by (simp add: fetchPokemonIndex_settle_def fetchPokemonIndex_call_def)
  from calls facts failure success show ?thesis by blast
qed

text \<open>The theorem of claim C9 for three callers of the module just loaded.\<close>

theorem fetchPokemonIndex_single_flight_witness:
  "concurrentCalls 3 coldApi
     = ([Pending 0, Pending 0, Pending 0],
        coldApi\<lparr>requests := [GetPokemonList 0 5000], pokemonIndexPromise := Some 0,
          promisesCreated := 1\<rparr>)
   \<and> length (requests (snd (concurrentCalls 3 coldApi))) = 1"
proof -
  have cold: "pokemonIndexCache coldApi = None" "pokemonIndexPromise coldApi = None"
    by (simp_all add: coldApi_def)
  from fetchPokemonIndex_single_flight [OF cold, of 3]
  obtain p st1 where calls: "concurrentCalls 3 coldApi = (replicate 3 (Pending p), st1)"
    and reqs: "requests st1 = requests coldApi @ [GetPokemonList 0 POKEMON_INDEX_LIMIT]"
    by auto
  have computed: "concurrentCalls 3 coldApi
     = ([Pending 0, Pending 0, Pending 0],
        coldApi\<lparr>requests := [GetPokemonList 0 5000], pokemonIndexPromise := Some 0,
          promisesCreated := 1\<rparr>)"
    by code_simp
  from calls reqs have "length (requests (snd (concurrentCalls 3 coldApi))) = 1"
    by (simp add: coldApi_def)
  with computed show ?thesis by blast
qed

section \<open>The batch detail fetcher\<close>

subsection \<open>The worker pool\<close>

text \<open>
  \<^verbatim>\<open>fetchPokemonDetailsBatch\<close> starts \<^verbatim>\<open>min(DETAIL_CONCURRENCY, items.length)\<close>
  workers over one array of results and one cursor. A worker runs without interruption
  from one \<^verbatim>\<open>await\<close> to the next, so it takes two kinds of steps:
  \<^item> \<open>Claim w\<close>: worker \<open>w\<close>, at the head of its loop, reads and advances the
    cursor (\<^verbatim>\<open>nextIndex++\<close>), returns when the index is past the end, and otherwise
    calls \<^verbatim>\<open>fetchPokemonById\<close> with the name of the item and awaits it;
  \<^item> \<open>Settle w\<close>: the fetch worker \<open>w\<close> awaits settles; when it resolved, the
    card is stored at the worker's index, when it rejected, the \<^verbatim>\<open>catch\<close> logs
    it; the worker is back at the head of its loop.

  The order in which the runtime lets the workers step is a list of events, the
  schedule. What the fetch for the index \<open>i\<close> settles to is given by
  \<open>fetchById i identifier\<close>, a parameter: the result of that one call of
  \<^verbatim>\<open>fetchPokemonById\<close>, whether it came from the cache or from the network.
  \<open>runPool\<close> is \<open>None\<close> when the schedule asks a worker for a step it cannot
  take; \<open>fetchPokemonDetailsBatch\<close> is what the call resolves to when the
  schedule runs all workers to their return (\<^verbatim>\<open>Promise.all\<close>), and \<open>None\<close> for
  a schedule that does not.
\<close>

datatype worker = AtLoopHead | Awaiting nat | Returned

datatype event = Claim nat | Settle nat

record 'c pool =
  nextIndex :: nat
  batchResults :: "'c option list"
  workers :: "worker list"

definition DETAIL_CONCURRENCY :: nat where
  "DETAIL_CONCURRENCY = 6"

definition startBatch :: "PokeApiListItem list \<Rightarrow> 'c pool" where
  "startBatch items =
    \<lparr>nextIndex = 0, batchResults = replicate (length items) None,
     workers = replicate (min DETAIL_CONCURRENCY (length items)) AtLoopHead\<rparr>"

definition workerStep ::
  "(nat \<Rightarrow> string \<Rightarrow> error + 'c) \<Rightarrow> PokeApiListItem list \<Rightarrow> event \<Rightarrow> 'c pool \<Rightarrow> 'c pool option" where
  "workerStep fetchById items ev s =
    (case ev of
       Claim w \<Rightarrow>
         if w < length (workers s) \<and> workers s ! w = AtLoopHead then
           (let currentIndex = nextIndex s in
            Some (s\<lparr>nextIndex := currentIndex + 1,
                    workers := (workers s)
                      [w := (if currentIndex \<ge> length items then Returned else Awaiting currentIndex)]\<rparr>))
         else None
     | Settle w \<Rightarrow>
         if w < length (workers s) then
           (case workers s ! w of
              Awaiting currentIndex \<Rightarrow>
                (let identifier = item_name (items ! currentIndex) in
                 case fetchById currentIndex identifier of
                   Inr c \<Rightarrow>
                     Some (s\<lparr>batchResults := (batchResults s)[currentIndex := Some c],
                             workers := (workers s)[w := AtLoopHead]\<rparr>)
                 | Inl err \<Rightarrow> Some (s\<lparr>workers := (workers s)[w := AtLoopHead]\<rparr>))
            | _ \<Rightarrow> None)
         else None)"

fun runPool ::
  "(nat \<Rightarrow> string \<Rightarrow> error + 'c) \<Rightarrow> PokeApiListItem list \<Rightarrow> event list \<Rightarrow> 'c pool \<Rightarrow> 'c pool option" where
  "runPool fetchById items [] s = Some s"
| "runPool fetchById items (ev # evs) s =
    (case workerStep fetchById items ev s of
       None \<Rightarrow> None
     | Some s' \<Rightarrow> runPool fetchById items evs s')"

definition allReturned :: "'c pool \<Rightarrow> bool" where
  "allReturned s = list_all (\<lambda>w. w = Returned) (workers s)"

definition fetchPokemonDetailsBatch ::
  "(nat \<Rightarrow> string \<Rightarrow> error + 'c) \<Rightarrow> PokeApiListItem list \<Rightarrow> event list \<Rightarrow> 'c list option" where
  "fetchPokemonDetailsBatch fetchById items schedule =
    (if length items = 0 then Some []
     else
       (case runPool fetchById items schedule (startBatch items) of
          None \<Rightarrow> None
        | Some s \<Rightarrow> if allReturned s then Some (List.map_filter id (batchResults s)) else None))"

text \<open>
  An item's fetch succeeded when its call resolved; \<open>fetchOutcome\<close> is the card
  then. \<open>awaited s i\<close>: some worker awaits the fetch for the index \<open>i\<close>.
\<close>

definition fetchOutcome :: "(nat \<Rightarrow> string \<Rightarrow> error + 'c) \<Rightarrow> PokeApiListItem list \<Rightarrow> nat \<Rightarrow> 'c option" where
  "fetchOutcome fetchById items i =
    (case fetchById i (item_name (items ! i)) of Inr c \<Rightarrow> Some c | Inl err \<Rightarrow> None)"

definition awaited :: "'c pool \<Rightarrow> nat \<Rightarrow> bool" where
  "awaited s i \<longleftrightarrow> (\<exists>w < length (workers s). workers s ! w = Awaiting i)"

subsection \<open>The invariant of the pool\<close>

text \<open>
  At every moment: no two workers await the same index, an awaited index has been
  claimed and is inside the array; the array holds, at every index claimed and no
  longer awaited, the outcome of that index's fetch, and null elsewhere; and once a
  worker has returned, the cursor is past the end.
\<close>

definition poolInv :: "(nat \<Rightarrow> string \<Rightarrow> error + 'c) \<Rightarrow> PokeApiListItem list \<Rightarrow> 'c pool \<Rightarrow> bool" where
  "poolInv fetchById items s \<longleftrightarrow>
     length (batchResults s) = length items
   \<and> length (workers s) = min DETAIL_CONCURRENCY (length items)
   \<and> (\<forall>w < length (workers s). \<forall>i. workers s ! w = Awaiting i \<longrightarrow>
        i < length items \<and> i < nextIndex s
        \<and> (\<forall>w' < length (workers s). workers s ! w' = Awaiting i \<longrightarrow> w' = w))
   \<and> (\<forall>i < length items. batchResults s ! i =
        (if i < nextIndex s \<and> \<not> awaited s i then fetchOutcome fetchById items i else None))
   \<and> ((\<exists>w < length (workers s). workers s ! w = Returned) \<longrightarrow> length items \<le> nextIndex s)"

lemma poolInv_startBatch: "poolInv fetchById items (startBatch items)"
  by (auto simp: poolInv_def startBatch_def awaited_def)

lemma poolInv_claim:
  assumes inv: "poolInv fetchById items s"
    and w: "w < length (workers s)" "workers s ! w = AtLoopHead"
  shows "poolInv fetchById items
     (s\<lparr>nextIndex := nextIndex s + 1,
        workers := (workers s)[w := (if nextIndex s \<ge> length items then Returned else Awaiting (nextIndex s))]\<rparr>)"
    (is "poolInv _ _ ?s'")
proof -
  let ?ws = "workers s" and ?n = "nextIndex s" and ?N = "length items"
  let ?x = "if ?n \<ge> ?N then Returned else Awaiting ?n"
  from inv have len: "length (batchResults s) = ?N" "length ?ws = min DETAIL_CONCURRENCY ?N"
    and aw: "\<And>v i. v < length ?ws \<Longrightarrow> ?ws ! v = Awaiting i \<Longrightarrow>
        i < ?N \<and> i < ?n \<and> (\<forall>w' < length ?ws. ?ws ! w' = Awaiting i \<longrightarrow> w' = v)"
    and res: "\<And>i. i < ?N \<Longrightarrow> batchResults s ! i =
        (if i < ?n \<and> \<not> awaited s i then fetchOutcome fetchById items i else None)"
    and ret: "\<And>v. v < length ?ws \<Longrightarrow> ?ws ! v = Returned \<Longrightarrow> ?N \<le> ?n"
    unfolding poolInv_def by blast+
  have nth: "?ws[w := ?x] ! v = (if v = w then ?x else ?ws ! v)" if "v < length ?ws" for v
    using that w(1) by (simp add: nth_list_update)
  have aw': "i < ?N \<and> i < ?n + 1 \<and> (\<forall>w' < length ?ws. ?ws[w := ?x] ! w' = Awaiting i \<longrightarrow> w' = v)"
    if v: "v < length ?ws" "?ws[w := ?x] ! v = Awaiting i" for v i
  proof (cases "v = w")
    case True
    with v nth [of v] have i: "i = ?n" "?n < ?N"
      by (auto split: if_splits)
    have "w' = v" if "w' < length ?ws" "?ws[w := ?x] ! w' = Awaiting i" for w'
    proof (rule ccontr)
      assume "w' \<noteq> v"
      with that True nth [of w'] have "?ws ! w' = Awaiting ?n" by (simp add: i)
      with aw [OF that(1)] show False by simp
    qed
    with i show ?thesis by simp
  next
    case False
    with v nth [of v] have old: "?ws ! v = Awaiting i" by simp
    note a = aw [OF v(1) old]
    have "w' = v" if "w' < length ?ws" "?ws[w := ?x] ! w' = Awaiting i" for w'
    proof (cases "w' = w")
      case True
      with that nth [of w'] have "i = ?n" by (auto split: if_splits)
      with a show ?thesis by simp
    next
      case False
      with that nth [of w'] have "?ws ! w' = Awaiting i" by simp
      with a that(1) show ?thesis by blast
    qed
    with a show ?thesis by simp
  qed
  have awaited': "awaited ?s' i \<longleftrightarrow> awaited s i \<or> (i = ?n \<and> ?n < ?N)" for i
  proof
    assume "awaited ?s' i"
    then obtain v where v: "v < length ?ws" "?ws[w := ?x] ! v = Awaiting i"
      by (auto simp: awaited_def)
    show "awaited s i \<or> (i = ?n \<and> ?n < ?N)"
    proof (cases "v = w")
      case True
      with v nth [of v] show ?thesis by (auto split: if_splits)
    next
      case False
      with v nth [of v] show ?thesis by (auto simp: awaited_def)
    qed
  next
    assume "awaited s i \<or> (i = ?n \<and> ?n < ?N)"
    then show "awaited ?s' i"
    proof
      assume "awaited s i"
      then obtain v where v: "v < length ?ws" "?ws ! v = Awaiting i"
        by (auto simp: awaited_def)
      with w(2) have "v \<noteq> w" by auto
      with v nth [of v] show ?thesis by (auto simp: awaited_def)
    next
      assume "i = ?n \<and> ?n < ?N"
      with w(1) nth [of w] show ?thesis by (auto simp: awaited_def)
    qed
  qed
  have not_awaited_n: "\<not> awaited s ?n"
    using aw by (auto simp: awaited_def)
  have res': "batchResults s ! i =
        (if i < ?n + 1 \<and> \<not> awaited ?s' i then fetchOutcome fetchById items i else None)"
    if "i < ?N" for i
    using res [OF that] that not_awaited_n unfolding awaited' by (auto simp: less_Suc_eq)
  have ret': "?N \<le> ?n + 1" if "\<exists>v < length ?ws. ?ws[w := ?x] ! v = Returned"
  proof -
    from that obtain v where v: "v < length ?ws" "?ws[w := ?x] ! v = Returned" by blast
    show ?thesis
    proof (cases "v = w")
      case True
      with v nth [of v] show ?thesis by (auto split: if_splits)
    next
      case False
      with v nth [of v] have "?ws ! v = Returned" by simp
      with ret [OF v(1)] show ?thesis by simp
    qed
  qed
  have sel: "workers ?s' = ?ws[w := ?x]" "nextIndex ?s' = ?n + 1" "batchResults ?s' = batchResults s"
    by simp_all
  have c1: "length (batchResults ?s') = ?N"
    unfolding sel by (rule len)
  have c2: "length (workers ?s') = min DETAIL_CONCURRENCY ?N"
    unfolding sel length_list_update by (rule len)
  have c3: "\<forall>v < length (workers ?s'). \<forall>i. workers ?s' ! v = Awaiting i \<longrightarrow>
        i < ?N \<and> i < nextIndex ?s'
        \<and> (\<forall>w' < length (workers ?s'). workers ?s' ! w' = Awaiting i \<longrightarrow> w' = v)"
    unfolding sel length_list_update using aw' by blast
  have c4: "\<forall>i < ?N. batchResults ?s' ! i =
        (if i < nextIndex ?s' \<and> \<not> awaited ?s' i then fetchOutcome fetchById items i else None)"
    unfolding sel using res' by blast
  have c5: "(\<exists>v < length (workers ?s'). workers ?s' ! v = Returned) \<longrightarrow> ?N \<le> nextIndex ?s'"
    unfolding sel length_list_update using ret' by blast
  show ?thesis
    unfolding poolInv_def by (intro conjI c1 c2 c3 c4 c5)
qed

lemma poolInv_settle:
  assumes inv: "poolInv fetchById items s"
    and w: "w < length (workers s)" "workers s ! w = Awaiting i"
    and rs: "rs = (case fetchById i (item_name (items ! i)) of
                     Inr c \<Rightarrow> (batchResults s)[i := Some c] | Inl err \<Rightarrow> batchResults s)"
  shows "poolInv fetchById items (s\<lparr>batchResults := rs, workers := (workers s)[w := AtLoopHead]\<rparr>)"
    (is "poolInv _ _ ?s'")
proof -
  let ?ws = "workers s" and ?n = "nextIndex s" and ?N = "length items"
  from inv have len: "length (batchResults s) = ?N" "length ?ws = min DETAIL_CONCURRENCY ?N"
    and aw: "\<And>v j. v < length ?ws \<Longrightarrow> ?ws ! v = Awaiting j \<Longrightarrow>
        j < ?N \<and> j < ?n \<and> (\<forall>w' < length ?ws. ?ws ! w' = Awaiting j \<longrightarrow> w' = v)"
    and res: "\<And>j. j < ?N \<Longrightarrow> batchResults s ! j =
        (if j < ?n \<and> \<not> awaited s j then fetchOutcome fetchById items j else None)"
    and ret: "\<And>v. v < length ?ws \<Longrightarrow> ?ws ! v = Returned \<Longrightarrow> ?N \<le> ?n"
    unfolding poolInv_def by blast+
  from aw [OF w] have i: "i < ?N" "i < ?n"
    and unique: "\<And>w'. w' < length ?ws \<Longrightarrow> ?ws ! w' = Awaiting i \<Longrightarrow> w' = w"
    by blast+
  have nth: "?ws[w := AtLoopHead] ! v = (if v = w then AtLoopHead else ?ws ! v)"
    if "v < length ?ws" for v
    using that w(1) by (simp add: nth_list_update)
  have sel: "workers ?s' = ?ws[w := AtLoopHead]" "nextIndex ?s' = ?n" "batchResults ?s' = rs"
    by simp_all
  have rs_len: "length rs = ?N"
    unfolding rs using len(1) by (simp split: sum.split)
  have rs_i: "rs ! i = fetchOutcome fetchById items i"
  proof (cases "fetchById i (item_name (items ! i))")
    case (Inl err)
    from w have "awaited s i" by (auto simp: awaited_def)
    with res [OF i(1)] Inl show ?thesis
      by (simp add: rs fetchOutcome_def)
  next
    case (Inr c)
    with i(1) len(1) show ?thesis
      by (simp add: rs fetchOutcome_def)
  qed
  have rs_other: "rs ! j = batchResults s ! j" if "j \<noteq> i" for j
    unfolding rs using that by (simp split: sum.split)
  have awaited': "awaited ?s' j \<longleftrightarrow> awaited s j \<and> j \<noteq> i" for j
  proof
    assume "awaited ?s' j"
    then obtain v where v: "v < length ?ws" "?ws[w := AtLoopHead] ! v = Awaiting j"
      by (auto simp: awaited_def)
    with nth [of v] have vw: "v \<noteq> w" and old: "?ws ! v = Awaiting j"
      by (auto split: if_splits)
    from unique [OF v(1)] old vw have "j \<noteq> i" by auto
    with v(1) old show "awaited s j \<and> j \<noteq> i" by (auto simp: awaited_def)
  next
    assume a: "awaited s j \<and> j \<noteq> i"
    then obtain v where v: "v < length ?ws" "?ws ! v = Awaiting j"
      by (auto simp: awaited_def)
    with a w(2) have "v \<noteq> w" by auto
    with v nth [of v] show "awaited ?s' j" by (auto simp: awaited_def)
  qed
  have c1: "length (batchResults ?s') = ?N"
    unfolding sel by (rule rs_len)
  have c2: "length (workers ?s') = min DETAIL_CONCURRENCY ?N"
    unfolding sel length_list_update by (rule len)
  have aw': "j < ?N \<and> j < ?n \<and> (\<forall>w' < length ?ws. ?ws[w := AtLoopHead] ! w' = Awaiting j \<longrightarrow> w' = v)"
    if v: "v < length ?ws" "?ws[w := AtLoopHead] ! v = Awaiting j" for v j
  proof -
    from v nth [of v] have vw: "v \<noteq> w" and old: "?ws ! v = Awaiting j"
      by (auto split: if_splits)
    note a = aw [OF v(1) old]
    have "w' = v" if "w' < length ?ws" "?ws[w := AtLoopHead] ! w' = Awaiting j" for w'
    proof -
      from that nth [of w'] have "?ws ! w' = Awaiting j" by (auto split: if_splits)
      with a that(1) show ?thesis by blast
    qed
    with a show ?thesis by simp
  qed
  have c3: "\<forall>v < length (workers ?s'). \<forall>j. workers ?s' ! v = Awaiting j \<longrightarrow>
        j < ?N \<and> j < nextIndex ?s'
        \<and> (\<forall>w' < length (workers ?s'). workers ?s' ! w' = Awaiting j \<longrightarrow> w' = v)"
    unfolding sel length_list_update using aw' by blast
  have res': "rs ! j = (if j < ?n \<and> \<not> awaited ?s' j then fetchOutcome fetchById items j else None)"
    if "j < ?N" for j
  proof (cases "j = i")
    case True
    with rs_i i(2) show ?thesis unfolding awaited' by simp
  next
    case False
    with rs_other [OF False] res [OF that] show ?thesis unfolding awaited' by simp
  qed
  have c4: "\<forall>j < ?N. batchResults ?s' ! j =
        (if j < nextIndex ?s' \<and> \<not> awaited ?s' j then fetchOutcome fetchById items j else None)"
    unfolding sel using res' by blast
  have ret': "?N \<le> ?n" if "v < length ?ws" "?ws[w := AtLoopHead] ! v = Returned" for v
  proof -
    from that nth [of v] have "?ws ! v = Returned" by (auto split: if_splits)
    with ret [OF that(1)] show ?thesis .
  qed
  have c5: "(\<exists>v < length (workers ?s'). workers ?s' ! v = Returned) \<longrightarrow> ?N \<le> nextIndex ?s'"
    unfolding sel length_list_update using ret' by blast
  show ?thesis
    unfolding poolInv_def by (intro conjI c1 c2 c3 c4 c5)
qed

lemma poolInv_workerStep:
  assumes "poolInv fetchById items s" and "workerStep fetchById items ev s = Some s'"
  shows "poolInv fetchById items s'"
proof (cases ev)
  case (Claim w)
  with assms(2) have w: "w < length (workers s)" "workers s ! w = AtLoopHead"
    and s': "s' = s\<lparr>nextIndex := nextIndex s + 1,
        workers := (workers s)[w := (if nextIndex s \<ge> length items then Returned else Awaiting (nextIndex s))]\<rparr>"
    by (auto simp: workerStep_def Let_def split: if_splits)
  show ?thesis
    unfolding s' using assms(1) w by (rule poolInv_claim)
next
  case (Settle w)
  with assms(2) have w: "w < length (workers s)"
    by (auto simp: workerStep_def split: if_splits)
  from assms(2) Settle w obtain i where i: "workers s ! w = Awaiting i"
    by (cases "workers s ! w") (auto simp: workerStep_def)
  let ?rs = "case fetchById i (item_name (items ! i)) of
               Inr c \<Rightarrow> (batchResults s)[i := Some c] | Inl err \<Rightarrow> batchResults s"
  from assms(2) Settle w i
  have s': "s' = s\<lparr>batchResults := ?rs, workers := (workers s)[w := AtLoopHead]\<rparr>"
    by (auto simp: workerStep_def Let_def split: sum.splits)
  show ?thesis
    unfolding s' using assms(1) w i refl by (rule poolInv_settle)
qed

lemma poolInv_runPool:
  "poolInv fetchById items s \<Longrightarrow> runPool fetchById items evs s = Some s' \<Longrightarrow>
     poolInv fetchById items s'"
proof (induction evs arbitrary: s)
  case Nil
  then show ?case by simp
next
  case (Cons ev evs)
  from Cons.prems(2) obtain s1 where s1: "workerStep fetchById items ev s = Some s1"
    and rest: "runPool fetchById items evs s1 = Some s'"
    by (auto split: option.splits)
  from Cons.prems(1) s1 have "poolInv fetchById items s1"
    by (rule poolInv_workerStep)
  from this rest show ?case by (rule Cons.IH)
qed

lemma map_filter_id_map: "List.map_filter id (map f xs) = List.map_filter f xs"
  by (induction xs) (simp_all add: List.map_filter_simps split: option.split)

lemma batchResults_final:
  assumes inv: "poolInv fetchById items s" and fin: "allReturned s" and ne: "items \<noteq> []"
  shows "batchResults s = map (fetchOutcome fetchById items) [0..<length items]"
proof -
  let ?N = "length items"
  from inv have len: "length (batchResults s) = ?N" "length (workers s) = min DETAIL_CONCURRENCY ?N"
    and res: "\<And>j. j < ?N \<Longrightarrow> batchResults s ! j =
        (if j < nextIndex s \<and> \<not> awaited s j then fetchOutcome fetchById items j else None)"
    and ret: "\<And>v. v < length (workers s) \<Longrightarrow> workers s ! v = Returned \<Longrightarrow> ?N \<le> nextIndex s"
    unfolding poolInv_def by blast+
  from fin have all: "\<And>v. v < length (workers s) \<Longrightarrow> workers s ! v = Returned"
    by (simp add: allReturned_def list_all_length)
  from ne len(2) have "0 < length (workers s)"
    by (simp add: DETAIL_CONCURRENCY_def)
  with all ret have n: "?N \<le> nextIndex s" by blast
  have "\<not> awaited s j" for j
    using all by (auto simp: awaited_def)
  with res n have "batchResults s ! j = fetchOutcome fetchById items j" if "j < ?N" for j
    using that by simp
  with len(1) show ?thesis
    by (intro nth_equalityI) simp_all
qed

lemma fetchPokemonDetailsBatch_result:
  assumes "fetchPokemonDetailsBatch fetchById items schedule = Some cards"
  shows "cards = List.map_filter (fetchOutcome fetchById items) [0..<length items]"
proof (cases "items = []")
  case True
  with assms show ?thesis
    by (simp add: fetchPokemonDetailsBatch_def List.map_filter_simps)
next
  case False
  with assms obtain s where run: "runPool fetchById items schedule (startBatch items) = Some s"
    and fin: "allReturned s" and cards: "cards = List.map_filter id (batchResults s)"
    by (auto simp: fetchPokemonDetailsBatch_def split: option.splits if_splits)
  from poolInv_startBatch run have "poolInv fetchById items s"
    by (rule poolInv_runPool)
  from this fin False have "batchResults s = map (fetchOutcome fetchById items) [0..<length items]"
    by (rule batchResults_final)
  then show ?thesis
    unfolding cards by (simp add: map_filter_id_map)
qed

subsection \<open>Every schedule ends\<close>

text \<open>
  Each step lowers \<open>potential\<close>: twice the number of claims still possible plus the
  number of fetches awaited. \<open>countInv\<close> keeps the books that make it so.
\<close>

fun isAwaiting :: "worker \<Rightarrow> bool" where
  "isAwaiting (Awaiting i) = True"
| "isAwaiting _ = False"

definition atLoopHead :: "'c pool \<Rightarrow> nat" where
  "atLoopHead s = length (filter (\<lambda>x. x = AtLoopHead) (workers s))"

definition awaiting :: "'c pool \<Rightarrow> nat" where
  "awaiting s = length (filter isAwaiting (workers s))"

definition potential :: "PokeApiListItem list \<Rightarrow> 'c pool \<Rightarrow> nat" where
  "potential items s = 2 * (length items + length (workers s) - nextIndex s) + awaiting s"

definition countInv :: "PokeApiListItem list \<Rightarrow> 'c pool \<Rightarrow> bool" where
  "countInv items s \<longleftrightarrow>
     max (nextIndex s) (length items) + atLoopHead s + awaiting s = length items + length (workers s)"

lemma count_list_update:
  "w < length ws \<Longrightarrow>
     length (filter P (ws[w := x])) + (if P (ws ! w) then 1 else 0)
       = length (filter P ws) + (if P x then 1 else 0)"
proof (induction ws arbitrary: w)
  case Nil
  then show ?case by simp
next
  case (Cons y ys)
  show ?case
  proof (cases w)
    case 0
    then show ?thesis by simp
  next
    case (Suc v)
    with Cons.prems have "v < length ys" by simp
    from Cons.IH [OF this] Suc show ?thesis by simp
  qed
qed

lemma countInv_startBatch: "countInv items (startBatch items)"
  by (simp add: countInv_def startBatch_def atLoopHead_def awaiting_def)

lemma workerStep_decreases:
  assumes inv: "countInv items s" and step: "workerStep fetchById items ev s = Some s'"
  shows "countInv items s' \<and> potential items s' < potential items s
       \<and> length (workers s') = length (workers s)"
proof (cases ev)
  case (Claim w)
  let ?x = "if nextIndex s \<ge> length items then Returned else Awaiting (nextIndex s)"
  from step Claim have w: "w < length (workers s)" "workers s ! w = AtLoopHead"
    and s': "s' = s\<lparr>nextIndex := nextIndex s + 1, workers := (workers s)[w := ?x]\<rparr>"
    by (auto simp: workerStep_def Let_def split: if_splits)
  from count_list_update [OF w(1), of "\<lambda>x. x = AtLoopHead" ?x] w(2)
  have h: "atLoopHead s' + 1 = atLoopHead s"
    by (simp add: atLoopHead_def s')
  from count_list_update [OF w(1), of isAwaiting ?x] w(2)
  have a: "awaiting s' = awaiting s + (if nextIndex s \<ge> length items then 0 else 1)"
    by (simp add: awaiting_def s')
  have n: "nextIndex s' = nextIndex s + 1" and k: "length (workers s') = length (workers s)"
    by (simp_all add: s')
  from inv h have bound: "nextIndex s < length items + length (workers s)"
    unfolding countInv_def by (simp add: max_def split: if_splits)
  from inv h a n k have "countInv items s'"
    unfolding countInv_def by (simp add: max_def split: if_splits)
  moreover from bound a n k have "potential items s' < potential items s"
    unfolding potential_def by (simp split: if_splits)
  ultimately show ?thesis using k by simp
next
  case (Settle w)
  from step Settle have w: "w < length (workers s)"
    by (auto simp: workerStep_def split: if_splits)
  from step Settle w obtain i where i: "workers s ! w = Awaiting i"
    by (cases "workers s ! w") (auto simp: workerStep_def)
  from step Settle w i have ws: "workers s' = (workers s)[w := AtLoopHead]"
    and n: "nextIndex s' = nextIndex s"
    by (auto simp: workerStep_def Let_def split: sum.splits)
  from count_list_update [OF w, of "\<lambda>x. x = AtLoopHead" AtLoopHead] i
  have h: "atLoopHead s' = atLoopHead s + 1"
    by (simp add: atLoopHead_def ws)
  from count_list_update [OF w, of isAwaiting AtLoopHead] i
  have a: "awaiting s' + 1 = awaiting s"
    by (simp add: awaiting_def ws)
  have k: "length (workers s') = length (workers s)"
    by (simp add: ws)
  from inv h a n k have "countInv items s'"
    unfolding countInv_def by simp
  moreover from a n k have "potential items s' < potential items s"
    unfolding potential_def by simp
  ultimately show ?thesis using k by simp
qed

lemma runPool_bounded:
  "countInv items s \<Longrightarrow> runPool fetchById items evs s = Some s' \<Longrightarrow>
     countInv items s' \<and> length evs + potential items s' \<le> potential items s"
proof (induction evs arbitrary: s)
  case Nil
  then show ?case by simp
next
  case (Cons ev evs)
  from Cons.prems(2) obtain s1 where s1: "workerStep fetchById items ev s = Some s1"
    and rest: "runPool fetchById items evs s1 = Some s'"
    by (auto split: option.splits)
  from workerStep_decreases [OF Cons.prems(1) s1]
  have inv1: "countInv items s1" and less: "potential items s1 < potential items s"
    by simp_all
  from Cons.IH [OF inv1 rest] less show ?case by simp
qed

lemma workerStep_progress:
  assumes "\<not> allReturned s"
  shows "\<exists>ev s'. workerStep fetchById items ev s = Some s'"
proof -
  from assms obtain w where w: "w < length (workers s)" "workers s ! w \<noteq> Returned"
    by (auto simp: allReturned_def list_all_length)
  show ?thesis
  proof (cases "workers s ! w")
    case AtLoopHead
    with w(1) have "\<exists>s'. workerStep fetchById items (Claim w) s = Some s'"
      by (simp add: workerStep_def Let_def)
    then show ?thesis by blast
  next
    case (Awaiting i)
    with w(1) have "\<exists>s'. workerStep fetchById items (Settle w) s = Some s'"
      by (simp add: workerStep_def Let_def split: sum.split)
    then show ?thesis by blast
  next
    case Returned
    with w(2) show ?thesis by simp
  qed
qed

lemma runPool_completes:
  "countInv items s \<Longrightarrow> \<exists>evs s'. runPool fetchById items evs s = Some s' \<and> allReturned s'"
proof (induction "potential items s" arbitrary: s rule: less_induct)
  case less
  show ?case
  proof (cases "allReturned s")
    case True
    then have "runPool fetchById items [] s = Some s \<and> allReturned s" by simp
    then show ?thesis by blast
  next
    case False
    then obtain ev s1 where s1: "workerStep fetchById items ev s = Some s1"
      using workerStep_progress by blast
    from workerStep_decreases [OF less.prems s1]
    have inv1: "countInv items s1" and lt: "potential items s1 < potential items s"
      by simp_all
    from less.hyps [OF lt inv1] obtain evs s'
      where "runPool fetchById items evs s1 = Some s'" "allReturned s'"
      by blast
    with s1 have "runPool fetchById items (ev # evs) s = Some s' \<and> allReturned s'"
      by simp
    then show ?thesis by blast
  qed
qed

lemma length_map_filter_le: "length (List.map_filter f xs) \<le> length xs"
  by (induction xs) (simp_all add: List.map_filter_simps split: option.split)

text \<open>
  Claim C2. Whatever the order in which the workers step and the fetches settle: when
  the batch call resolves, it resolves to the cards of exactly the items whose fetch
  succeeded, in the order of the items (so to at most as many cards as items). A failed
  fetch makes no difference to that: the call has no way to reject, some schedule runs
  it to its end, no schedule is longer than twice the items plus twice the workers, and
  as long as a worker has not returned some step is possible.
\<close>

theorem fetchPokemonDetailsBatch_partial_success:
  "(\<forall>schedule cards. fetchPokemonDetailsBatch fetchById items schedule = Some cards \<longrightarrow>
        cards = List.map_filter (fetchOutcome fetchById items) [0..<length items]
      \<and> length cards \<le> length items)
   \<and> (\<exists>schedule cards. fetchPokemonDetailsBatch fetchById items schedule = Some cards)
   \<and> (\<forall>schedule s. runPool fetchById items schedule (startBatch items) = Some s \<longrightarrow>
        length schedule \<le> 2 * length items + 2 * min DETAIL_CONCURRENCY (length items)
      \<and> (\<not> allReturned s \<longrightarrow> (\<exists>ev s'. workerStep fetchById items ev s = Some s')))"
proof -
  have result: "cards = List.map_filter (fetchOutcome fetchById items) [0..<length items]
      \<and> length cards \<le> length items"
    if "fetchPokemonDetailsBatch fetchById items schedule = Some cards" for schedule cards
  proof -
    from that have "cards = List.map_filter (fetchOutcome fetchById items) [0..<length items]"
      by (rule fetchPokemonDetailsBatch_result)
    moreover have "length (List.map_filter (fetchOutcome fetchById items) [0..<length items])
        \<le> length [0..<length items]"
      by (rule length_map_filter_le)
    ultimately show ?thesis by simp
  qed
  have returns: "\<exists>schedule cards. fetchPokemonDetailsBatch fetchById items schedule = Some cards"
  proof -
    from runPool_completes [OF countInv_startBatch] obtain evs s
      where "runPool fetchById items evs (startBatch items) = Some s" "allReturned s"
      by blast
    then have "\<exists>cards. fetchPokemonDetailsBatch fetchById items evs = Some cards"
      by (simp add: fetchPokemonDetailsBatch_def)
    then show ?thesis by blast
  qed
  have bounded: "length schedule \<le> 2 * length items + 2 * min DETAIL_CONCURRENCY (length items)
      \<and> (\<not> allReturned s \<longrightarrow> (\<exists>ev s'. workerStep fetchById items ev s = Some s'))"
    if run: "runPool fetchById items schedule (startBatch items) = Some s" for schedule s
  proof -
    from runPool_bounded [OF countInv_startBatch run]
    have "length schedule \<le> potential items (startBatch items :: 'a pool)"
      by simp
    also have "potential items (startBatch items :: 'a pool)
        = 2 * length items + 2 * min DETAIL_CONCURRENCY (length items)"
      by (simp add: potential_def startBatch_def awaiting_def)
    finally show ?thesis
      using workerStep_progress by blast
  qed
  from result returns bounded show ?thesis by blast
qed

subsection \<open>Ten items, two failures\<close>

text \<open>
  Ten references, a fetch that fails for the items at the positions 3 and 7 (counted
  from 0) and otherwise resolves to the title-cased name in place of the card, and a
  schedule of the six workers in which the fetches settle in the order 2, 1, 3, 5, 0,
  7, 6, 4, 8, 9.
\<close>

definition tenItems :: "PokeApiListItem list" where
  "tenItems = map listItem [''bulbasaur'', ''ivysaur'', ''venusaur'', ''charmander'', ''charmeleon'',
     ''charizard'', ''squirtle'', ''wartortle'', ''blastoise'', ''caterpie'']"

definition failingAt :: "nat list \<Rightarrow> nat \<Rightarrow> string \<Rightarrow> error + string" where
  "failingAt positions i identifier =
    (if i \<in> set positions then Inl (Error ''Failed to fetch pokemon details'')
     else Inr (toTitleCase identifier))"

definition tenSchedule :: "event list" where
  "tenSchedule =
    [Claim 0, Claim 1, Claim 2, Claim 3, Claim 4, Claim 5, Settle 2, Claim 2, Settle 1, Claim 1,
     Settle 3, Claim 3, Settle 5, Claim 5, Settle 0, Claim 0, Settle 1, Claim 1, Settle 2, Claim 2,
     Settle 4, Claim 4, Settle 3, Claim 3, Settle 5, Claim 5]"

text \<open>
  The theorem of claim C2 on this batch: eight cards, in the order of the eight items
  that survive.
\<close>

theorem fetchPokemonDetailsBatch_partial_success_witness:
  "fetchPokemonDetailsBatch (failingAt [3, 7]) tenItems tenSchedule
     = Some [''Bulbasaur'', ''Ivysaur'', ''Venusaur'', ''Charmeleon'', ''Charizard'', ''Squirtle'',
             ''Blastoise'', ''Caterpie'']
   \<and> List.map_filter (fetchOutcome (failingAt [3, 7]) tenItems) [0..<length tenItems]
     = [''Bulbasaur'', ''Ivysaur'', ''Venusaur'', ''Charmeleon'', ''Charizard'', ''Squirtle'',
        ''Blastoise'', ''Caterpie'']
   \<and> length tenItems = 10
   \<and> length [''Bulbasaur'', ''Ivysaur'', ''Venusaur'', ''Charmeleon'', ''Charizard'', ''Squirtle'',
              ''Blastoise'', ''Caterpie''] = 8"
proof -
  let ?cards = "[''Bulbasaur'', ''Ivysaur'', ''Venusaur'', ''Charmeleon'', ''Charizard'', ''Squirtle'',
             ''Blastoise'', ''Caterpie'']"
  have run: "fetchPokemonDetailsBatch (failingAt [3, 7]) tenItems tenSchedule = Some ?cards"
    by code_simp
  with fetchPokemonDetailsBatch_partial_success [of "failingAt [3, 7]" tenItems]
  have "?cards = List.map_filter (fetchOutcome (failingAt [3, 7]) tenItems) [0..<length tenItems]"
    by blast
  then have expected:
    "List.map_filter (fetchOutcome (failingAt [3, 7]) tenItems) [0..<length tenItems] = ?cards"
    by (rule sym)
  have ten: "length tenItems = 10"
    by (simp add: tenItems_def)
  have eight: "length ?cards = 8"
    by simp
  from run expected ten eight show ?thesis
    by (intro conjI)
qed

end
